theory Spec2Isabelle
  imports
    Complex_Main
    "HOL-Library.AList"
    "HOL-Library.Char_ord"
    "HOL-Library.List_Lexorder"
    "HOL-Library.Product_Lexorder"
begin

section \<open>Python values\<close>

subsection \<open>Exceptions\<close>

text \<open>
  The exceptions that the functions of \<^verbatim>\<open>RunIntegrationTests.py\<close> raise or receive
  from their collaborators. All of them are subclasses of Python's \<^verbatim>\<open>Exception\<close>,
  so the handler \<^verbatim>\<open>except Exception\<close> of \<^verbatim>\<open>main\<close> catches each of them.
\<close>

datatype py_error =
    ValueError
  | AttributeError
  | OverflowError
  | ZeroDivisionError
  | RuntimeError
  | TimeoutExpired
  | TypeError
  | OSError
  | JSONDecodeError

subsection \<open>Floats\<close>

text \<open>
  A Python \<^verbatim>\<open>float\<close> is a finite number, one of the two infinities, or NaN. The two
  zeros \<^verbatim>\<open>0.0\<close> and \<^verbatim>\<open>-0.0\<close> are one value here: the program only compares,
  subtracts, multiplies and divides floats, and never divides by a zero without
  raising, so it cannot tell them apart.
\<close>

datatype pyfloat = Fin real | PInf | NInf | NaN

text \<open>
  The result of an arithmetic operation on finite floats is the exact result rounded
  to a float. The rounding is a parameter \<open>R\<close> of every function that computes with
  floats, so that what is proved holds for every rounding, in particular for the
  round-to-nearest of IEEE 754 binary64 that CPython uses, where a result that is too
  large rounds to an infinity. \<open>exact\<close> is the rounding that changes nothing.
\<close>

type_synonym rounding = "real \<Rightarrow> pyfloat"

definition exact :: rounding where
  "exact x = Fin x"

text \<open>Comparisons: every comparison with NaN is false.\<close>

fun flt :: "pyfloat \<Rightarrow> pyfloat \<Rightarrow> bool" where
  "flt NaN _ = False"
| "flt _ NaN = False"
| "flt (Fin x) (Fin y) = (x < y)"
| "flt (Fin x) PInf = True"
| "flt (Fin x) NInf = False"
| "flt PInf _ = False"
| "flt NInf NInf = False"
| "flt NInf _ = True"

fun feq :: "pyfloat \<Rightarrow> pyfloat \<Rightarrow> bool" where
  "feq NaN _ = False"
| "feq _ NaN = False"
| "feq a b = (a = b)"

definition fle :: "pyfloat \<Rightarrow> pyfloat \<Rightarrow> bool" where
  "fle a b = (flt a b \<or> feq a b)"

definition fgt :: "pyfloat \<Rightarrow> pyfloat \<Rightarrow> bool" where
  "fgt a b = flt b a"

text \<open>\<^verbatim>\<open>abs(x)\<close>\<close>

fun fabs :: "pyfloat \<Rightarrow> pyfloat" where
  "fabs (Fin x) = Fin \<bar>x\<bar>"
| "fabs PInf = PInf"
| "fabs NInf = PInf"
| "fabs NaN = NaN"

text \<open>\<^verbatim>\<open>a - b\<close>\<close>

fun fsub :: "rounding \<Rightarrow> pyfloat \<Rightarrow> pyfloat \<Rightarrow> pyfloat" where
  "fsub R NaN _ = NaN"
| "fsub R _ NaN = NaN"
| "fsub R (Fin x) (Fin y) = R (x - y)"
| "fsub R (Fin x) PInf = NInf"
| "fsub R (Fin x) NInf = PInf"
| "fsub R PInf PInf = NaN"
| "fsub R PInf _ = PInf"
| "fsub R NInf NInf = NaN"
| "fsub R NInf _ = NInf"

text \<open>\<^verbatim>\<open>a * b\<close>: an infinity times zero is NaN, otherwise the signs multiply.\<close>

fun fmul :: "rounding \<Rightarrow> pyfloat \<Rightarrow> pyfloat \<Rightarrow> pyfloat" where
  "fmul R NaN _ = NaN"
| "fmul R _ NaN = NaN"
| "fmul R (Fin x) (Fin y) = R (x * y)"
| "fmul R (Fin x) PInf = (if x = 0 then NaN else if 0 < x then PInf else NInf)"
| "fmul R (Fin x) NInf = (if x = 0 then NaN else if 0 < x then NInf else PInf)"
| "fmul R PInf (Fin y) = (if y = 0 then NaN else if 0 < y then PInf else NInf)"
| "fmul R NInf (Fin y) = (if y = 0 then NaN else if 0 < y then NInf else PInf)"
| "fmul R PInf PInf = PInf"
| "fmul R PInf NInf = NInf"
| "fmul R NInf PInf = NInf"
| "fmul R NInf NInf = PInf"

text \<open>
  \<^verbatim>\<open>a / b\<close>: Python raises \<^verbatim>\<open>ZeroDivisionError\<close> when the divisor is zero, whatever
  the dividend is.
\<close>

fun fdiv :: "rounding \<Rightarrow> pyfloat \<Rightarrow> pyfloat \<Rightarrow> py_error + pyfloat" where
  "fdiv R a (Fin y) =
     (if y = 0 then Inl ZeroDivisionError
      else (case a of
              Fin x \<Rightarrow> Inr (R (x / y))
            | PInf \<Rightarrow> Inr (if 0 < y then PInf else NInf)
            | NInf \<Rightarrow> Inr (if 0 < y then NInf else PInf)
            | NaN \<Rightarrow> Inr NaN))"
| "fdiv R a NaN = Inr NaN"
| "fdiv R (Fin x) b = Inr (Fin 0)"
| "fdiv R NaN b = Inr NaN"
| "fdiv R a b = Inr NaN"

text \<open>
  \<^verbatim>\<open>max(a, b)\<close> of two arguments keeps the first one unless the second is greater.
\<close>

definition pymax :: "pyfloat \<Rightarrow> pyfloat \<Rightarrow> pyfloat" where
  "pymax a b = (if fgt b a then b else a)"

section \<open>The tolerance model\<close>

text \<open>
  \<^verbatim>\<open>
  def required_rel_tol(match_pct: float) -> float:
      if not (0.0 < match_pct <= 100.0):
          raise ValueError("match_pct must be in (0, 100].")
      return 1.0 - (match_pct / 100.0)
  \<close>
\<close>

definition required_rel_tol :: "rounding \<Rightarrow> pyfloat \<Rightarrow> py_error + pyfloat" where
  "required_rel_tol R match_pct =
     (if \<not> (flt (Fin 0) match_pct \<and> fle match_pct (Fin 100)) then Inl ValueError
      else (case fdiv R match_pct (Fin 100) of
              Inl e \<Rightarrow> Inl e
            | Inr q \<Rightarrow> Inr (fsub R (Fin 1) q)))"

text \<open>A rounding is monotone when a larger exact result never rounds to a smaller float.\<close>

definition monotone_rounding :: "rounding \<Rightarrow> bool" where
  "monotone_rounding R = (\<forall>x y. x \<le> y \<longrightarrow> fle (R x) (R y))"

section \<open>The report normalizer\<close>

subsection \<open>Parsed JSON\<close>

text \<open>
  What \<^verbatim>\<open>json.loads\<close> returns: \<^verbatim>\<open>None\<close>, a bool, an int of any size, a float
  (the parser accepts \<^verbatim>\<open>NaN\<close> and \<^verbatim>\<open>Infinity\<close>), a string, a list, or a dict with
  string keys. A dict is the list of its items in insertion order, the order in which
  \<^verbatim>\<open>items()\<close> yields them; its keys are distinct.
\<close>

datatype json =
    JNull
  | JBool bool
  | JInt int
  | JFloat pyfloat
  | JStr string
  | JList "json list"
  | JDict "(string \<times> json) list"

text \<open>\<^verbatim>\<open>d.get(k, default)\<close>\<close>

definition dict_get :: "(string \<times> json) list \<Rightarrow> string \<Rightarrow> json \<Rightarrow> json" where
  "dict_get d k dflt = (case map_of d k of Some v \<Rightarrow> v | None \<Rightarrow> dflt)"

text \<open>
  The truth value of an object: \<^verbatim>\<open>None\<close>, \<^verbatim>\<open>False\<close>, a zero and an empty string,
  list or dict are false.
\<close>

fun truthy :: "json \<Rightarrow> bool" where
  "truthy JNull = False"
| "truthy (JBool b) = b"
| "truthy (JInt i) = (i \<noteq> 0)"
| "truthy (JFloat f) = (\<not> feq f (Fin 0))"
| "truthy (JStr s) = (s \<noteq> [])"
| "truthy (JList xs) = (xs \<noteq> [])"
| "truthy (JDict kvs) = (kvs \<noteq> [])"

text \<open>\<^verbatim>\<open>a or b\<close>\<close>

definition py_or :: "json \<Rightarrow> json \<Rightarrow> json" where
  "py_or a b = (if truthy a then a else b)"

text \<open>
  \<^verbatim>\<open>isinstance(v, int)\<close> holds of ints and of bools (\<^verbatim>\<open>bool\<close> is a subclass of
  \<^verbatim>\<open>int\<close>, with \<^verbatim>\<open>True == 1\<close> and \<^verbatim>\<open>False == 0\<close>, also as dict keys);
  \<^verbatim>\<open>isinstance(v, (int, float))\<close> holds of floats as well.
\<close>

fun as_str :: "json \<Rightarrow> string option" where
  "as_str (JStr s) = Some s"
| "as_str _ = None"

fun as_int :: "json \<Rightarrow> int option" where
  "as_int (JInt i) = Some i"
| "as_int (JBool b) = Some (if b then 1 else 0)"
| "as_int _ = None"

fun is_number :: "json \<Rightarrow> bool" where
  "is_number (JInt i) = True"
| "is_number (JBool b) = True"
| "is_number (JFloat f) = True"
| "is_number _ = False"

text \<open>
  \<^verbatim>\<open>float(v)\<close> of a number. An int is rounded to a float, and Python raises
  \<^verbatim>\<open>OverflowError\<close> when it is too large for any finite float. The program calls
  \<^verbatim>\<open>float\<close> on numbers only (under \<^verbatim>\<open>isinstance(vol, (int, float))\<close>), so the
  last equation is never used.
\<close>

fun to_float :: "rounding \<Rightarrow> json \<Rightarrow> py_error + pyfloat" where
  "to_float R (JFloat f) = Inr f"
| "to_float R (JBool b) = Inr (Fin (if b then 1 else 0))"
| "to_float R (JInt i) = (case R (of_int i) of Fin r \<Rightarrow> Inr (Fin r) | _ \<Rightarrow> Inl OverflowError)"
| "to_float R _ = Inl TypeError"

text \<open>The ints that occur anywhere in a parsed document.\<close>

fun json_ints :: "json \<Rightarrow> int set" where
  "json_ints (JInt i) = {i}"
| "json_ints (JList xs) = (\<Union>x \<in> set xs. json_ints x)"
| "json_ints (JDict kvs) = (\<Union>kv \<in> set kvs. json_ints (snd kv))"
| "json_ints _ = {}"

subsection \<open>extract\_volumes\<close>

text \<open>
  \<^verbatim>\<open>
  SolidKey = Tuple[str, int]  # (object_name, index)

  def extract_volumes(report: Dict[str, Any]) -> Dict[SolidKey, float]:
      out: Dict[SolidKey, float] = {}

      objects = report.get("objects", {})
      if not isinstance(objects, dict):
          return out

      for obj_name, obj_entry in objects.items():
          if not isinstance(obj_entry, dict):
              continue
          solids = obj_entry.get("solids", [])
          if not isinstance(solids, list):
              continue

          for s in solids:
              if not isinstance(s, dict):
                  continue
              object_name = s.get("object_name") or obj_name
              idx = s.get("index")
              metrics = s.get("metrics", {})
              if not isinstance(metrics, dict):
                  continue
              vol = metrics.get("volume_mm3")

              if isinstance(object_name, str) and isinstance(idx, int) and isinstance(vol, (int, float)):
                  out[(object_name, idx)] = float(vol)

      return out
  \<close>
  The dict \<^verbatim>\<open>out\<close> is the list of its items in insertion order; the assignment
  \<^verbatim>\<open>out[k] = v\<close> replaces the value of a key that is there, in its place, and appends
  a new key at the end, which is \<open>AList.update\<close>.
\<close>

type_synonym SolidKey = "string \<times> int"

type_synonym volume_map = "(SolidKey \<times> pyfloat) list"

text \<open>
  What one solid entry \<open>s\<close> under the object \<open>obj_name\<close> contributes: nothing, a key
  with its volume, or the exception of \<^verbatim>\<open>float(vol)\<close>.
\<close>

definition solid_entry :: "rounding \<Rightarrow> string \<Rightarrow> json \<Rightarrow> py_error + (SolidKey \<times> pyfloat) option" where
  "solid_entry R obj_name s =
     (case s of
        JDict sd \<Rightarrow>
          (let object_name = py_or (dict_get sd ''object_name'' JNull) (JStr obj_name);
               idx = dict_get sd ''index'' JNull;
               metrics = dict_get sd ''metrics'' (JDict [])
           in case metrics of
                JDict md \<Rightarrow>
                  (let vol = dict_get md ''volume_mm3'' JNull
                   in case (as_str object_name, as_int idx) of
                        (Some nm, Some i) \<Rightarrow>
                          (if is_number vol
                           then (case to_float R vol of
                                   Inl e \<Rightarrow> Inl e
                                 | Inr v \<Rightarrow> Inr (Some ((nm, i), v)))
                           else Inr None)
                      | _ \<Rightarrow> Inr None)
              | _ \<Rightarrow> Inr None)
      | _ \<Rightarrow> Inr None)"

text \<open>The inner loop, over the solids of one object.\<close>

fun solids_loop :: "rounding \<Rightarrow> string \<Rightarrow> json list \<Rightarrow> volume_map \<Rightarrow> py_error + volume_map" where
  "solids_loop R obj_name [] out = Inr out"
| "solids_loop R obj_name (s # solids) out =
     (case solid_entry R obj_name s of
        Inl e \<Rightarrow> Inl e
      | Inr None \<Rightarrow> solids_loop R obj_name solids out
      | Inr (Some (k, v)) \<Rightarrow> solids_loop R obj_name solids (AList.update k v out))"

text \<open>The outer loop, over the items of \<^verbatim>\<open>objects\<close>.\<close>

fun objects_loop :: "rounding \<Rightarrow> (string \<times> json) list \<Rightarrow> volume_map \<Rightarrow> py_error + volume_map" where
  "objects_loop R [] out = Inr out"
| "objects_loop R ((obj_name, obj_entry) # objects) out =
     (case obj_entry of
        JDict od \<Rightarrow>
          (case dict_get od ''solids'' (JList []) of
             JList solids \<Rightarrow>
               (case solids_loop R obj_name solids out of
                  Inl e \<Rightarrow> Inl e
                | Inr out' \<Rightarrow> objects_loop R objects out')
           | _ \<Rightarrow> objects_loop R objects out)
      | _ \<Rightarrow> objects_loop R objects out)"

text \<open>
  Only a dict has the method \<^verbatim>\<open>get\<close>: on any other report the first statement
  raises \<^verbatim>\<open>AttributeError\<close>.
\<close>

definition extract_volumes :: "rounding \<Rightarrow> json \<Rightarrow> py_error + volume_map" where
  "extract_volumes R report =
     (case report of
        JDict rd \<Rightarrow>
          (case dict_get rd ''objects'' (JDict []) of
             JDict objects \<Rightarrow> objects_loop R objects []
           | _ \<Rightarrow> Inr [])
      | _ \<Rightarrow> Inl AttributeError)"

text \<open>
  The solids that the two loops visit, in the order of the visit, each with the key of
  its object: those of the well-formed levels. \<open>apply_entry\<close> is the effect of one
  of them on \<^verbatim>\<open>out\<close> when it raises nothing.
\<close>

fun object_solids :: "string \<times> json \<Rightarrow> (string \<times> json) list" where
  "object_solids (obj_name, obj_entry) =
     (case obj_entry of
        JDict od \<Rightarrow>
          (case dict_get od ''solids'' (JList []) of
             JList solids \<Rightarrow> map (Pair obj_name) solids
           | _ \<Rightarrow> [])
      | _ \<Rightarrow> [])"

definition traversal :: "json \<Rightarrow> (string \<times> json) list" where
  "traversal report =
     (case report of
        JDict rd \<Rightarrow>
          (case dict_get rd ''objects'' (JDict []) of
             JDict objects \<Rightarrow> concat (map object_solids objects)
           | _ \<Rightarrow> [])
      | _ \<Rightarrow> [])"

fun apply_entry :: "rounding \<Rightarrow> string \<times> json \<Rightarrow> volume_map \<Rightarrow> volume_map" where
  "apply_entry R (obj_name, s) out =
     (case solid_entry R obj_name s of
        Inr (Some (k, v)) \<Rightarrow> AList.update k v out
      | _ \<Rightarrow> out)"

section \<open>The matcher\<close>

text \<open>
  \<^verbatim>\<open>
  @dataclass(frozen=True)
  class CompareConfig:
      match_pct: float          # e.g. 99.999
      abs_tol_mm3: float        # absolute floor tolerance for very small volumes

  @dataclass
  class SolidDiff:
      key: SolidKey
      baseline: Optional[float]
      new: Optional[float]
      rel_err: Optional[float]
      ok: bool
      reason: str
  \<close>
\<close>

record CompareConfig =
  match_pct :: pyfloat
  abs_tol_mm3 :: pyfloat

record SolidDiff =
  key :: SolidKey
  baseline :: "pyfloat option"
  new :: "pyfloat option"
  rel_err :: "pyfloat option"
  ok :: bool
  reason :: string

text \<open>
  \<^verbatim>\<open>
  def compare_maps(baseline, new, cfg) -> List[SolidDiff]:
      rel_tol = required_rel_tol(cfg.match_pct)

      diffs: List[SolidDiff] = []

      all_keys = set(baseline.keys()) | set(new.keys())
      for key in sorted(all_keys, key=lambda k: (k[0], k[1])):
          b = baseline.get(key)
          n = new.get(key)

          if b is None:
              diffs.append(SolidDiff(key=key, baseline=None, new=n, rel_err=None, ok=False, reason="missing_in_baseline"))
              continue
          if n is None:
              diffs.append(SolidDiff(key=key, baseline=b, new=None, rel_err=None, ok=False, reason="missing_in_new"))
              continue

          # Fuzzy compare: pass if |n-b| <= max(abs_tol, rel_tol*max(|b|,|n|))
          denom = max(abs(b), abs(n))
          tol = max(cfg.abs_tol_mm3, rel_tol * denom)
          err = abs(n - b)

          ok = err <= tol
          rel_err = (err / denom) if denom > 0 else (0.0 if err == 0 else math.inf)

          diffs.append(
              SolidDiff(
                  key=key,
                  baseline=b,
                  new=n,
                  rel_err=rel_err,
                  ok=ok,
                  reason="ok" if ok else "volume_mismatch",
              )
          )

      return diffs
  \<close>
  The values of the two maps are floats, so \<^verbatim>\<open>baseline.get(key)\<close> is \<^verbatim>\<open>None\<close> exactly
  when the key is not in the map.
\<close>

text \<open>The fuzzy comparison of two volumes that are both there.\<close>

definition fuzzy_compare ::
  "rounding \<Rightarrow> CompareConfig \<Rightarrow> pyfloat \<Rightarrow> SolidKey \<Rightarrow> pyfloat \<Rightarrow> pyfloat \<Rightarrow> py_error + SolidDiff" where
  "fuzzy_compare R cfg rel_tol k b n =
     (let denom = pymax (fabs b) (fabs n);
          tol = pymax (abs_tol_mm3 cfg) (fmul R rel_tol denom);
          err = fabs (fsub R n b);
          is_ok = fle err tol
      in case (if fgt denom (Fin 0) then fdiv R err denom
               else Inr (if feq err (Fin 0) then Fin 0 else PInf)) of
           Inl e \<Rightarrow> Inl e
         | Inr re \<Rightarrow>
             Inr \<lparr>key = k, baseline = Some b, new = Some n, rel_err = Some re, ok = is_ok,
                  reason = (if is_ok then ''ok'' else ''volume_mismatch'')\<rparr>)"

text \<open>The body of the loop: the outcome of one key.\<close>

definition compare_key ::
  "rounding \<Rightarrow> volume_map \<Rightarrow> volume_map \<Rightarrow> CompareConfig \<Rightarrow> pyfloat \<Rightarrow> SolidKey \<Rightarrow> py_error + SolidDiff" where
  "compare_key R baseline_map new_map cfg rel_tol k =
     (let b = map_of baseline_map k;
          n = map_of new_map k
      in case b of
           None \<Rightarrow>
             Inr \<lparr>key = k, baseline = None, new = n, rel_err = None, ok = False,
                  reason = ''missing_in_baseline''\<rparr>
         | Some bv \<Rightarrow>
             (case n of
                None \<Rightarrow>
                  Inr \<lparr>key = k, baseline = b, new = None, rel_err = None, ok = False,
                       reason = ''missing_in_new''\<rparr>
              | Some nv \<Rightarrow> fuzzy_compare R cfg rel_tol k bv nv))"

fun compare_loop ::
  "rounding \<Rightarrow> volume_map \<Rightarrow> volume_map \<Rightarrow> CompareConfig \<Rightarrow> pyfloat \<Rightarrow> SolidKey list
     \<Rightarrow> SolidDiff list \<Rightarrow> py_error + SolidDiff list" where
  "compare_loop R baseline_map new_map cfg rel_tol [] ds = Inr ds"
| "compare_loop R baseline_map new_map cfg rel_tol (k # ks) ds =
     (case compare_key R baseline_map new_map cfg rel_tol k of
        Inl e \<Rightarrow> Inl e
      | Inr d \<Rightarrow> compare_loop R baseline_map new_map cfg rel_tol ks (ds @ [d]))"

text \<open>
  The union of the two key sets has each key once; \<^verbatim>\<open>sorted\<close> orders these tuples
  of a string and an int by the string (strings compare character by character, a
  proper prefix first) and then by the int, whatever the order in which the set yields
  them.
\<close>

definition all_keys :: "volume_map \<Rightarrow> volume_map \<Rightarrow> SolidKey list" where
  "all_keys baseline_map new_map = remdups (map fst baseline_map @ map fst new_map)"

definition compare_maps ::
  "rounding \<Rightarrow> volume_map \<Rightarrow> volume_map \<Rightarrow> CompareConfig \<Rightarrow> py_error + SolidDiff list" where
  "compare_maps R baseline_map new_map cfg =
     (case required_rel_tol R (match_pct cfg) of
        Inl e \<Rightarrow> Inl e
      | Inr rel_tol \<Rightarrow>
          compare_loop R baseline_map new_map cfg rel_tol
            (sort_key (\<lambda>k. (fst k, snd k)) (all_keys baseline_map new_map)) [])"

text \<open>
  The order of the outcomes: by entity name, then by index. Names compare as Python
  strings do, character by character with a proper prefix first.
\<close>

definition key_le :: "SolidKey \<Rightarrow> SolidKey \<Rightarrow> bool" where
  "key_le k k' = (fst k < fst k' \<or> (fst k = fst k' \<and> snd k \<le> snd k'))"

section \<open>The run orchestrator\<close>

text \<open>
  \<^verbatim>\<open>main\<close> reads the file system and runs the external tool. What it finds there is
  its second input: whether the four paths of the command line exist, and the model
  files that \<^verbatim>\<open>find_fcstd_files\<close> returns, each with what the run meets at it:
  whether its baseline file exists, what \<^verbatim>\<open>run_freecad_script\<close> does on it and what
  \<^verbatim>\<open>load_json\<close> does on its baseline (each returns a parsed document or raises).
\<close>

record fcstd_file =
  file_name :: string
  baseline_exists :: bool
  tool_result :: "py_error + json"
  baseline_load :: "py_error + json"

record world =
  freecad_exists :: bool
  script_exists :: bool
  fcstd_dir_exists :: bool
  baseline_dir_exists :: bool
  fcstd_files :: "fcstd_file list"

text \<open>
  The counters of \<^verbatim>\<open>main\<close>, and the files on which the external tool has been run,
  in the order of the runs.
\<close>

record tally =
  total_files :: nat
  ok_files :: nat
  mismatch_files :: nat
  error_files :: nat
  tool_runs :: "string list"

definition tally0 :: tally where
  "tally0 = \<lparr>total_files = 0, ok_files = 0, mismatch_files = 0, error_files = 0, tool_runs = []\<rparr>"

text \<open>
  The statements under \<^verbatim>\<open>try\<close> that can raise, up to the list of outcomes:
  \<^verbatim>\<open>
  new_report = run_freecad_script(freecad_exe=freecad_exe, script_path=script_path,
                                  fcstd_path=fcstd_path, timeout_s=float(args.timeout))
  base_report = load_json(baseline_path)

  new_map = extract_volumes(new_report)
  base_map = extract_volumes(base_report)

  diffs = compare_maps(base_map, new_map, cfg)
  \<close>
\<close>

definition file_diffs :: "rounding \<Rightarrow> CompareConfig \<Rightarrow> fcstd_file \<Rightarrow> py_error + SolidDiff list" where
  "file_diffs R cfg f =
     (case tool_result f of
        Inl e \<Rightarrow> Inl e
      | Inr new_report \<Rightarrow>
          (case baseline_load f of
             Inl e \<Rightarrow> Inl e
           | Inr base_report \<Rightarrow>
               (case extract_volumes R new_report of
                  Inl e \<Rightarrow> Inl e
                | Inr new_map \<Rightarrow>
                    (case extract_volumes R base_report of
                       Inl e \<Rightarrow> Inl e
                     | Inr base_map \<Rightarrow> compare_maps R base_map new_map cfg))))"

text \<open>
  The body of the loop over the files (the printing left out):
  \<^verbatim>\<open>
  for fcstd_path in fcstd_files:
      total_files += 1
      stem = fcstd_path.stem
      baseline_path = baseline_dir / f"{stem}.json"

      if not baseline_path.exists():
          mismatch_files += 1
          continue

      try:
          ...
          diffs = compare_maps(base_map, new_map, cfg)
          bad = [d for d in diffs if not d.ok]

          if bad:
              mismatch_files += 1
          else:
              ok_files += 1

      except subprocess.TimeoutExpired:
          error_files += 1
      except Exception as e:
          error_files += 1
  \<close>
\<close>

definition process_file :: "rounding \<Rightarrow> CompareConfig \<Rightarrow> fcstd_file \<Rightarrow> tally \<Rightarrow> tally" where
  "process_file R cfg f t0 =
     (let t = t0\<lparr>total_files := total_files t0 + 1\<rparr>
      in if \<not> baseline_exists f then t\<lparr>mismatch_files := mismatch_files t + 1\<rparr>
         else (let t' = t\<lparr>tool_runs := tool_runs t @ [file_name f]\<rparr>
               in case file_diffs R cfg f of
                    Inl e \<Rightarrow> t'\<lparr>error_files := error_files t' + 1\<rparr>
                  | Inr ds \<Rightarrow>
                      (let bad = filter (\<lambda>d. \<not> ok d) ds
                       in if bad \<noteq> [] then t'\<lparr>mismatch_files := mismatch_files t' + 1\<rparr>
                          else t'\<lparr>ok_files := ok_files t' + 1\<rparr>)))"

text \<open>
  \<^verbatim>\<open>
  def main(argv: List[str]) -> int:
      args = parse_args(argv)
      ...
      for p in (freecad_exe, script_path, fcstd_dir, baseline_dir):
          if not p.exists():
              return 3

      cfg = CompareConfig(match_pct=float(args.match_pct), abs_tol_mm3=float(args.abs_tol_mm3))

      fcstd_files = find_fcstd_files(fcstd_dir, args.recursive)
      if not fcstd_files:
          return 3
      ...
      for fcstd_path in fcstd_files:
          ...

      ...
      print(f"Match pct:     {cfg.match_pct} (rel_tol={required_rel_tol(cfg.match_pct):.12g})")
      ...
      if error_files > 0:
          return 3
      if mismatch_files > 0:
          return 2
      return 0
  \<close>
  The result is the exit status that \<^verbatim>\<open>main\<close> returns, or the exception that leaves
  it, with the counters and the runs of the tool at that point. The summary calls
  \<^verbatim>\<open>required_rel_tol\<close> outside any handler.
\<close>

definition main :: "rounding \<Rightarrow> CompareConfig \<Rightarrow> world \<Rightarrow> (py_error + int) \<times> tally" where
  "main R cfg w =
     (if \<not> freecad_exists w \<or> \<not> script_exists w \<or> \<not> fcstd_dir_exists w \<or> \<not> baseline_dir_exists w
      then (Inr 3, tally0)
      else if fcstd_files w = [] then (Inr 3, tally0)
      else (let t = fold (process_file R cfg) (fcstd_files w) tally0
            in case required_rel_tol R (match_pct cfg) of
                 Inl e \<Rightarrow> (Inl e, t)
               | Inr rel_tol \<Rightarrow>
                   (Inr (if error_files t > 0 then 3 else if mismatch_files t > 0 then 2 else 0), t)))"

text \<open>
  How a file ends: in an execution error when an exception reaches the handler of its
  \<^verbatim>\<open>try\<close>; with a mismatch when its baseline is missing or one of its outcomes fails.
\<close>

definition file_error :: "rounding \<Rightarrow> CompareConfig \<Rightarrow> fcstd_file \<Rightarrow> bool" where
  "file_error R cfg f = (baseline_exists f \<and> isl (file_diffs R cfg f))"

definition file_mismatch :: "rounding \<Rightarrow> CompareConfig \<Rightarrow> fcstd_file \<Rightarrow> bool" where
  "file_mismatch R cfg f =
     (\<not> baseline_exists f \<or>
      (case file_diffs R cfg f of Inl e \<Rightarrow> False | Inr ds \<Rightarrow> list_ex (\<lambda>d. \<not> ok d) ds))"

section \<open>Properties of the tolerance model\<close>

lemma fle_Fin [simp]: "fle (Fin x) (Fin y) = (x \<le> y)"
  by (auto simp: fle_def)

lemma fle_NaN [simp]: "\<not> fle NaN a" "\<not> fle a NaN"
  by (cases a; simp add: fle_def)+

lemma in_range_finite:
  assumes "flt (Fin 0) m" "fle m (Fin 100)"
  obtains x where "m = Fin x" "0 < x" "x \<le> 100"
  using assms by (cases m) (auto simp: fle_def)

lemma monotone_rounding_not_NaN: "monotone_rounding R \<Longrightarrow> R x \<noteq> NaN"
  unfolding monotone_rounding_def
  by (metis fle_NaN(1) order_refl)

lemma fsub_one_antitone:
  assumes "fle q1 q2" and "monotone_rounding R"
  shows "fle (fsub R (Fin 1) q2) (fsub R (Fin 1) q1)"
proof (cases q1)
  case (Fin a)
  note q1 = this
  show ?thesis
  proof (cases q2)
    case (Fin b)
    with q1 assms(1) have "1 - b \<le> 1 - a" by simp
    with assms(2) show ?thesis
      using q1 Fin by (simp add: monotone_rounding_def)
  next
    case PInf
    have "R (1 - a) \<noteq> NaN" by (rule monotone_rounding_not_NaN [OF assms(2)])
    then show ?thesis using q1 PInf by (cases "R (1 - a)") (simp_all add: fle_def)
  qed (use q1 assms(1) in \<open>simp_all add: fle_def\<close>)
next
  case NInf
  note q1 = this
  show ?thesis
  proof (cases q2)
    case (Fin b)
    have "R (1 - b) \<noteq> NaN" by (rule monotone_rounding_not_NaN [OF assms(2)])
    then show ?thesis using q1 Fin by (cases "R (1 - b)") (simp_all add: fle_def)
  qed (use q1 assms(1) in \<open>simp_all add: fle_def\<close>)
next
  case PInf
  with assms(1) show ?thesis by (cases q2) (simp_all add: fle_def)
next
  case NaN
  with assms(1) show ?thesis by simp
qed

text \<open>
  C2. For a match percentage \<open>m\<close> in (0, 100], \<open>required_rel_tol\<close> returns
  \<^verbatim>\<open>1.0 - (m / 100.0)\<close>: the rounded quotient subtracted from one and rounded, which
  is the real number \<open>1 - m/100\<close> when the rounding is exact. As the percentage
  increases the result decreases: strictly when the rounding is exact, and weakly under
  any monotone rounding (two percentages may round to the same tolerance). A percentage
  that is \<open>\<le> 0\<close> or \<open>> 100\<close> raises \<^verbatim>\<open>ValueError\<close>.
\<close>

theorem required_rel_tol_spec:
  "(flt (Fin 0) m \<and> fle m (Fin 100) \<longrightarrow>
      (\<exists>x. m = Fin x \<and> required_rel_tol R m = Inr (fsub R (Fin 1) (R (x / 100)))
          \<and> required_rel_tol exact m = Inr (Fin (1 - x / 100))))
   \<and> (flt (Fin 0) m1 \<and> flt m1 m2 \<and> fle m2 (Fin 100) \<longrightarrow>
      (\<exists>t1 t2. required_rel_tol exact m1 = Inr t1 \<and> required_rel_tol exact m2 = Inr t2
          \<and> flt t2 t1))
   \<and> (monotone_rounding R \<and> flt (Fin 0) m1 \<and> fle m1 m2 \<and> fle m2 (Fin 100) \<longrightarrow>
      (\<exists>t1 t2. required_rel_tol R m1 = Inr t1 \<and> required_rel_tol R m2 = Inr t2 \<and> fle t2 t1))
   \<and> (fle m0 (Fin 0) \<or> fgt m0 (Fin 100) \<longrightarrow> required_rel_tol R m0 = Inl ValueError)"
proof (intro conjI impI)
  assume "flt (Fin 0) m \<and> fle m (Fin 100)"
  then obtain x where "m = Fin x" "0 < x" "x \<le> 100" by (auto elim: in_range_finite)
  then show "\<exists>x. m = Fin x \<and> required_rel_tol R m = Inr (fsub R (Fin 1) (R (x / 100)))
      \<and> required_rel_tol exact m = Inr (Fin (1 - x / 100))"
    by (simp add: required_rel_tol_def exact_def)
next
  assume "flt (Fin 0) m1 \<and> flt m1 m2 \<and> fle m2 (Fin 100)"
  then obtain x y where "m1 = Fin x" "0 < x" "x < y" "m2 = Fin y" "y \<le> 100"
    by (cases m1; cases m2) (auto simp: fle_def)
  then show "\<exists>t1 t2. required_rel_tol exact m1 = Inr t1 \<and> required_rel_tol exact m2 = Inr t2
      \<and> flt t2 t1"
    by (simp add: required_rel_tol_def exact_def)
next
  assume a: "monotone_rounding R \<and> flt (Fin 0) m1 \<and> fle m1 m2 \<and> fle m2 (Fin 100)"
  then obtain x y where x: "m1 = Fin x" "0 < x" "x \<le> y" and y: "m2 = Fin y" "y \<le> 100"
    by (cases m1; cases m2) (auto simp: fle_def)
  have "fle (R (x / 100)) (R (y / 100))"
    using a x(3) by (simp add: monotone_rounding_def divide_right_mono)
  then have "fle (fsub R (Fin 1) (R (y / 100))) (fsub R (Fin 1) (R (x / 100)))"
    using a by (simp add: fsub_one_antitone)
  then show "\<exists>t1 t2. required_rel_tol R m1 = Inr t1 \<and> required_rel_tol R m2 = Inr t2 \<and> fle t2 t1"
    using x y by (simp add: required_rel_tol_def)
next
  assume "fle m0 (Fin 0) \<or> fgt m0 (Fin 100)"
  then show "required_rel_tol R m0 = Inl ValueError"
    by (cases m0) (auto simp: required_rel_tol_def fle_def fgt_def)
qed

theorem required_rel_tol_spec_witness:
  "required_rel_tol exact (Fin 50) = Inr (Fin (1 / 2))
   \<and> required_rel_tol exact (Fin 100) = Inr (Fin 0)
   \<and> (\<exists>t1 t2. required_rel_tol exact (Fin 25) = Inr t1 \<and> required_rel_tol exact (Fin 75) = Inr t2
        \<and> flt t2 t1 \<and> fle t2 t1)
   \<and> required_rel_tol exact (Fin 0) = Inl ValueError
   \<and> required_rel_tol exact (Fin 101) = Inl ValueError"
proof -
  have h1: "flt (Fin 0) (Fin 50) \<and> fle (Fin 50) (Fin 100)"
    by simp
  have h2: "flt (Fin 0) (Fin 25) \<and> flt (Fin 25) (Fin 75) \<and> fle (Fin 75) (Fin 100)"
    by simp
  have h3: "monotone_rounding exact \<and> flt (Fin 0) (Fin 25) \<and> fle (Fin 25) (Fin 75)
            \<and> fle (Fin 75) (Fin 100)"
    by (simp add: monotone_rounding_def exact_def)
  have h4: "fle (Fin 0) (Fin 0) \<or> fgt (Fin 0) (Fin 100)"
    by simp
  have h5: "fle (Fin 101) (Fin 0) \<or> fgt (Fin 101) (Fin 100)"
    by (simp add: fgt_def)
  from required_rel_tol_spec [where m = "Fin 50" and R = exact and ?m1.0 = "Fin 25"
      and ?m2.0 = "Fin 75" and ?m0.0 = "Fin 0"] h1 h2 h3 h4
  have a: "required_rel_tol exact (Fin 50) = Inr (Fin (1 / 2))
     \<and> (\<exists>t1 t2. required_rel_tol exact (Fin 25) = Inr t1
          \<and> required_rel_tol exact (Fin 75) = Inr t2 \<and> flt t2 t1 \<and> fle t2 t1)
     \<and> required_rel_tol exact (Fin 0) = Inl ValueError"
    by auto
  have h6: "flt (Fin 0) (Fin 100) \<and> fle (Fin 100) (Fin 100)"
    by simp
  from required_rel_tol_spec [where m = "Fin 100" and R = exact and ?m0.0 = "Fin 101"] h5 h6
  have "required_rel_tol exact (Fin 100) = Inr (Fin 0)
     \<and> required_rel_tol exact (Fin 101) = Inl ValueError"
    by (auto simp: exact_def)
  with a show ?thesis by simp
qed

section \<open>Properties of the report normalizer\<close>

lemma json_ints_dict_get:
  "json_ints (dict_get d k dflt) \<subseteq> json_ints (JDict d) \<union> json_ints dflt"
  by (auto simp: dict_get_def split: option.splits dest!: map_of_SomeD)

lemma to_float_ok:
  "is_number v \<Longrightarrow> \<forall>i \<in> json_ints v. \<exists>r. R (real_of_int i) = Fin r \<Longrightarrow> \<exists>x. to_float R v = Inr x"
  by (cases v) auto

lemma solid_entry_ok:
  assumes "\<forall>i \<in> json_ints s. \<exists>r. R (real_of_int i) = Fin r"
  shows "\<exists>e. solid_entry R obj_name s = Inr e"
proof (cases s)
  case (JDict sd)
  show ?thesis
  proof (cases "dict_get sd ''metrics'' (JDict [])")
    case md: (JDict md)
    let ?vol = "dict_get md ''volume_mm3'' JNull"
    have "json_ints ?vol \<subseteq> json_ints (JDict md)"
      using json_ints_dict_get [of md "''volume_mm3''" JNull] by simp
    also have "\<dots> \<subseteq> json_ints s"
      using json_ints_dict_get [of sd "''metrics''" "JDict []"] md JDict by simp
    finally have "\<forall>i \<in> json_ints ?vol. \<exists>r. R (real_of_int i) = Fin r"
      using assms by blast
    then have "is_number ?vol \<Longrightarrow> \<exists>x. to_float R ?vol = Inr x"
      by (rule to_float_ok [rotated])
    then show ?thesis
      using JDict md by (cases "is_number ?vol") (auto simp: solid_entry_def Let_def split: option.splits)
  qed (simp_all add: solid_entry_def JDict)
qed (simp_all add: solid_entry_def)

lemma solids_loop_ok:
  "\<forall>s \<in> set solids. \<forall>i \<in> json_ints s. \<exists>r. R (real_of_int i) = Fin r
    \<Longrightarrow> \<exists>out'. solids_loop R obj_name solids out = Inr out'"
proof (induction solids arbitrary: out)
  case Nil
  then show ?case by simp
next
  case (Cons s solids)
  then obtain e where "solid_entry R obj_name s = Inr e"
    using solid_entry_ok [of s R obj_name] by auto
  with Cons show ?case by (cases e) auto
qed

lemma objects_loop_ok:
  "\<forall>i \<in> json_ints (JDict objects). \<exists>r. R (real_of_int i) = Fin r
    \<Longrightarrow> \<exists>out'. objects_loop R objects out = Inr out'"
proof (induction objects arbitrary: out)
  case Nil
  then show ?case by simp
next
  case (Cons oe objects)
  obtain obj_name obj_entry where oe: "oe = (obj_name, obj_entry)" by (cases oe)
  from Cons.prems have rest: "\<forall>i \<in> json_ints (JDict objects). \<exists>r. R (real_of_int i) = Fin r"
    by simp
  show ?case
  proof (cases obj_entry)
    case (JDict od)
    show ?thesis
    proof (cases "dict_get od ''solids'' (JList [])")
      case (JList solids)
      have "json_ints (JList solids) \<subseteq> json_ints (JDict od)"
        using json_ints_dict_get [of od "''solids''" "JList []"] JList by simp
      then have "json_ints (JList solids) \<subseteq> json_ints (JDict (oe # objects))"
        using oe JDict by auto
      then have "\<forall>i \<in> json_ints (JList solids). \<exists>r. R (real_of_int i) = Fin r"
        using Cons.prems by blast
      then have "\<forall>s \<in> set solids. \<forall>i \<in> json_ints s. \<exists>r. R (real_of_int i) = Fin r"
        by simp
      then obtain out' where "solids_loop R obj_name solids out = Inr out'"
        using solids_loop_ok by blast
      then show ?thesis
        using oe JDict JList Cons.IH [OF rest] by simp
    qed (use oe JDict Cons.IH [OF rest] in simp_all)
  qed (use oe Cons.IH [OF rest] in simp_all)
qed

lemma solids_loop_fold:
  "solids_loop R obj_name solids out = Inr out'
    \<Longrightarrow> out' = fold (apply_entry R) (map (Pair obj_name) solids) out"
proof (induction solids arbitrary: out)
  case Nil
  then show ?case by simp
next
  case (Cons s solids)
  then show ?case
    by (auto split: sum.splits option.splits)
qed

lemma objects_loop_fold:
  "objects_loop R objects out = Inr out'
    \<Longrightarrow> out' = fold (apply_entry R) (concat (map object_solids objects)) out"
proof (induction objects arbitrary: out)
  case Nil
  then show ?case by simp
next
  case (Cons oe objects)
  obtain obj_name obj_entry where oe: "oe = (obj_name, obj_entry)" by (cases oe)
  show ?case
  proof (cases obj_entry)
    case (JDict od)
    show ?thesis
    proof (cases "dict_get od ''solids'' (JList [])")
      case (JList solids)
      with Cons.prems oe JDict obtain out1 where
        1: "solids_loop R obj_name solids out = Inr out1" and
        2: "objects_loop R objects out1 = Inr out'"
        by (auto split: sum.splits)
      have "object_solids oe = map (Pair obj_name) solids"
        using oe JDict JList by (simp)
      then show ?thesis
        using solids_loop_fold [OF 1] Cons.IH [OF 2] by simp
    qed (use Cons oe JDict in \<open>simp_all\<close>)
  qed (use Cons oe in \<open>simp_all\<close>)
qed

lemma extract_volumes_fold:
  "extract_volumes R report = Inr out \<Longrightarrow> out = fold (apply_entry R) (traversal report) []"
  by (auto simp: extract_volumes_def traversal_def dest: objects_loop_fold split: json.splits)

lemma fold_apply_entry_other:
  "\<forall>os \<in> set post. \<forall>v. solid_entry R (fst os) (snd os) \<noteq> Inr (Some (k, v))
    \<Longrightarrow> map_of (fold (apply_entry R) post m) k = map_of m k"
proof (induction post arbitrary: m)
  case Nil
  then show ?case by simp
next
  case (Cons os post)
  have "map_of (apply_entry R os m) k = map_of m k"
    using Cons.prems by (cases os) (auto simp: update_conv' split: sum.splits option.splits)
  with Cons show ?case by simp
qed

lemma distinct_apply_entry:
  "distinct (map fst out) \<Longrightarrow> distinct (map fst (apply_entry R os out))"
  by (cases os) (auto simp: distinct_update split: sum.splits option.splits)

lemma distinct_fold_apply_entry:
  "distinct (map fst out) \<Longrightarrow> distinct (map fst (fold (apply_entry R) xs out))"
  by (induction xs arbitrary: out) (simp_all add: distinct_apply_entry)

text \<open>The list that \<open>extract_volumes\<close> returns is a dict: its keys are distinct.\<close>

lemma extract_volumes_distinct:
  "extract_volumes R report = Inr out \<Longrightarrow> distinct (map fst out)"
  using extract_volumes_fold [of R report out] distinct_fold_apply_entry [of "[]" R]
  by simp

text \<open>
  The exception that no shape check prevents: an int volume that rounds to no finite
  float.
\<close>

lemma extract_volumes_overflow:
  assumes "R (real_of_int i) = PInf"
  shows "extract_volumes R
     (JDict [(''objects'', JDict [(obj_name, JDict [(''solids'', JList
        [JDict [(''index'', JInt 0), (''metrics'', JDict [(''volume_mm3'', JInt i)])]])])])])
     = Inl OverflowError"
  using assms by (simp add: extract_volumes_def dict_get_def solid_entry_def py_or_def)

text \<open>
  C3, as the code has it. \<open>extract_volumes\<close> does not succeed on every input: a report
  that is not a dict raises \<^verbatim>\<open>AttributeError\<close> at \<^verbatim>\<open>report.get\<close>. On a report that is
  a dict it raises nothing and returns a (possibly empty) map, however malformed the
  report is at any level below, provided that each int in the report rounds to a
  finite float (\<^verbatim>\<open>float(vol)\<close> raises \<^verbatim>\<open>OverflowError\<close> on an int volume that is too
  large).
\<close>

theorem extract_volumes_total_on_dicts:
  "((\<forall>i \<in> json_ints (JDict rd). \<exists>r. R (real_of_int i) = Fin r) \<longrightarrow>
      (\<exists>out. extract_volumes R (JDict rd) = Inr out))
   \<and> ((\<forall>rd. report \<noteq> JDict rd) \<longrightarrow> extract_volumes R report = Inl AttributeError)"
proof (intro conjI impI)
  assume a: "\<forall>i \<in> json_ints (JDict rd). \<exists>r. R (real_of_int i) = Fin r"
  show "\<exists>out. extract_volumes R (JDict rd) = Inr out"
  proof (cases "dict_get rd ''objects'' (JDict [])")
    case (JDict objects)
    have "json_ints (JDict objects) \<subseteq> json_ints (JDict rd)"
      using json_ints_dict_get [of rd "''objects''" "JDict []"] JDict by simp
    with a have "\<forall>i \<in> json_ints (JDict objects). \<exists>r. R (real_of_int i) = Fin r"
      by blast
    then show ?thesis
      using JDict objects_loop_ok by (simp add: extract_volumes_def)
  qed (simp_all add: extract_volumes_def)
next
  assume "\<forall>rd. report \<noteq> JDict rd"
  then show "extract_volumes R report = Inl AttributeError"
    by (cases report) (simp_all add: extract_volumes_def)
qed

theorem extract_volumes_total_on_dicts_witness:
  "extract_volumes exact
     (JDict [(''objects'', JDict
        [(''Body'', JDict [(''solids'', JList
            [JDict [(''index'', JInt 0), (''metrics'', JDict [(''volume_mm3'', JInt 5)])],
             JStr ''junk'',
             JDict [(''index'', JStr ''0''), (''metrics'', JList [])]])]),
         (''Bad'', JInt 3)])])
     = Inr [((''Body'', 0), Fin 5)]
   \<and> extract_volumes exact (JStr ''objects'') = Inl AttributeError"
proof -
  let ?rd = "[(''objects'', JDict
        [(''Body'', JDict [(''solids'', JList
            [JDict [(''index'', JInt 0), (''metrics'', JDict [(''volume_mm3'', JInt 5)])],
             JStr ''junk'',
             JDict [(''index'', JStr ''0''), (''metrics'', JList [])]])]),
         (''Bad'', JInt 3)])]"
  have h: "\<forall>i \<in> json_ints (JDict ?rd). \<exists>r. exact (real_of_int i) = Fin r"
    by (simp add: exact_def)
  have n: "\<forall>rd. JStr ''objects'' \<noteq> JDict rd"
    by simp
  from extract_volumes_total_on_dicts [of ?rd exact "JStr ''objects''"] h n
  have "(\<exists>out. extract_volumes exact (JDict ?rd) = Inr out)
        \<and> extract_volumes exact (JStr ''objects'') = Inl AttributeError"
    by blast
  then show ?thesis
    by (simp add: extract_volumes_def dict_get_def solid_entry_def py_or_def exact_def)
qed

text \<open>
  C3 as stated fails: on the report \<^verbatim>\<open>[]\<close>, a JSON document that is a list,
  \<open>extract_volumes\<close> raises \<^verbatim>\<open>AttributeError\<close> and returns no map.
\<close>

theorem extract_volumes_not_total_counterexample:
  "extract_volumes exact (JList []) = Inl AttributeError"
  by (simp add: extract_volumes_def)

text \<open>
  C9. Among the solid entries that normalize to a key \<open>k\<close>, the one that the traversal
  meets last decides the value of \<open>k\<close> in the map that \<open>extract_volumes\<close> returns:
  whatever the entries before it wrote under \<open>k\<close> is overwritten.
\<close>

theorem extract_volumes_last_write_wins:
  assumes "extract_volumes R report = Inr out"
    and "traversal report = pre @ (obj_name, s) # post"
    and "solid_entry R obj_name s = Inr (Some (k, v))"
    and "\<forall>os \<in> set post. \<forall>v'. solid_entry R (fst os) (snd os) \<noteq> Inr (Some (k, v'))"
  shows "map_of out k = Some v"
proof -
  have "out = fold (apply_entry R) post (apply_entry R (obj_name, s) (fold (apply_entry R) pre []))"
    using extract_volumes_fold [OF assms(1)] assms(2) by simp
  then have "map_of out k = map_of (apply_entry R (obj_name, s) (fold (apply_entry R) pre [])) k"
    using fold_apply_entry_other [OF assms(4)] by simp
  then show ?thesis
    using assms(3) by (simp add: update_conv')
qed

theorem extract_volumes_last_write_wins_witness:
  "extract_volumes exact
     (JDict [(''objects'', JDict [(''Body'', JDict [(''solids'', JList
        [JDict [(''index'', JInt 0), (''metrics'', JDict [(''volume_mm3'', JFloat (Fin 2))])],
         JDict [(''index'', JInt 0), (''metrics'', JDict [(''volume_mm3'', JFloat (Fin 9))])]])])])])
     = Inr [((''Body'', 0), Fin 9)]
   \<and> map_of [((''Body'', 0 :: int), Fin 9)] (''Body'', 0) = Some (Fin 9)"
proof -
  let ?s1 = "JDict [(''index'', JInt 0), (''metrics'', JDict [(''volume_mm3'', JFloat (Fin 2))])]"
  let ?s2 = "JDict [(''index'', JInt 0), (''metrics'', JDict [(''volume_mm3'', JFloat (Fin 9))])]"
  let ?report = "JDict [(''objects'', JDict [(''Body'', JDict [(''solids'', JList [?s1, ?s2])])])]"
  have 1: "extract_volumes exact ?report = Inr [((''Body'', 0), Fin 9)]"
    by (simp add: extract_volumes_def dict_get_def solid_entry_def py_or_def)
  have 2: "traversal ?report = [(''Body'', ?s1)] @ (''Body'', ?s2) # []"
    by (simp add: traversal_def dict_get_def)
  have 3: "solid_entry exact ''Body'' ?s2 = Inr (Some ((''Body'', 0), Fin 9))"
    by (simp add: solid_entry_def dict_get_def py_or_def)
  have 4: "\<forall>os \<in> set []. \<forall>v'. solid_entry exact (fst os) (snd os) \<noteq> Inr (Some ((''Body'', 0), v'))"
    by simp
  from extract_volumes_last_write_wins [OF 1 2 3 4] 1 show ?thesis by simp
qed

text \<open>
  C10. For a solid whose index, metrics and volume are well-formed: when the field
  \<^verbatim>\<open>object_name\<close> is absent or false as a truth value (\<^verbatim>\<open>None\<close>, the empty string, and
  also zero, \<^verbatim>\<open>False\<close>, an empty list or dict), the entry is stored under the key of
  the enclosing object; when it is a nonempty string, under that string; when it is true
  as a truth value and not a string (a nonzero number, say), the entry is dropped and
  nothing is stored under the key of the enclosing object. This holds of every solid
  that the loops visit, and of the report with that one solid.
\<close>

theorem extract_volumes_object_name_fallback:
  assumes "as_int (dict_get sd ''index'' JNull) = Some i"
    and "dict_get sd ''metrics'' (JDict []) = JDict md"
    and "is_number (dict_get md ''volume_mm3'' JNull)"
    and "to_float R (dict_get md ''volume_mm3'' JNull) = Inr v"
  shows "solid_entry R obj_name (JDict sd) =
           Inr (case map_of sd ''object_name'' of
                  None \<Rightarrow> Some ((obj_name, i), v)
                | Some x \<Rightarrow>
                    if \<not> truthy x then Some ((obj_name, i), v)
                    else (case x of JStr nm \<Rightarrow> Some ((nm, i), v) | _ \<Rightarrow> None))
         \<and> extract_volumes R
           (JDict [(''objects'', JDict [(obj_name, JDict [(''solids'', JList [JDict sd])])])]) =
           Inr (case map_of sd ''object_name'' of
                  None \<Rightarrow> [((obj_name, i), v)]
                | Some x \<Rightarrow>
                    if \<not> truthy x then [((obj_name, i), v)]
                    else (case x of JStr nm \<Rightarrow> [((nm, i), v)] | _ \<Rightarrow> []))"
proof -
  let ?on = "py_or (dict_get sd ''object_name'' JNull) (JStr obj_name)"
  have 1: "solid_entry R obj_name (JDict sd) =
         Inr (case as_str ?on of None \<Rightarrow> None | Some nm \<Rightarrow> Some ((nm, i), v))"
    using assms by (simp add: solid_entry_def split: option.splits)
  have 2: "as_str ?on =
         (case map_of sd ''object_name'' of
            None \<Rightarrow> Some obj_name
          | Some x \<Rightarrow>
              if \<not> truthy x then Some obj_name
              else (case x of JStr nm \<Rightarrow> Some nm | _ \<Rightarrow> None))"
    by (simp add: py_or_def dict_get_def split: option.splits json.splits)
  have 3: "extract_volumes R
           (JDict [(''objects'', JDict [(obj_name, JDict [(''solids'', JList [JDict sd])])])]) =
        Inr (case as_str ?on of None \<Rightarrow> [] | Some nm \<Rightarrow> [((nm, i), v)])"
    by (simp add: extract_volumes_def dict_get_def 1 split: option.splits)
  show ?thesis
    unfolding 1 3 2 by (simp split: option.splits json.splits)
qed

theorem extract_volumes_object_name_fallback_witness:
  "extract_volumes exact
     (JDict [(''objects'', JDict [(''Body'', JDict [(''solids'', JList
        [JDict [(''object_name'', JStr []), (''index'', JInt 3),
                (''metrics'', JDict [(''volume_mm3'', JFloat (Fin 2))])]])])])])
     = Inr [((''Body'', 3), Fin 2)]
   \<and> extract_volumes exact
     (JDict [(''objects'', JDict [(''Body'', JDict [(''solids'', JList
        [JDict [(''object_name'', JInt 7), (''index'', JInt 3),
                (''metrics'', JDict [(''volume_mm3'', JFloat (Fin 2))])]])])])])
     = Inr []"
proof -
  let ?md = "[(''volume_mm3'', JFloat (Fin 2))]"
  let ?sd1 = "[(''object_name'', JStr []), (''index'', JInt 3), (''metrics'', JDict ?md)]"
  let ?sd2 = "[(''object_name'', JInt 7), (''index'', JInt 3), (''metrics'', JDict ?md)]"
  have a: "as_int (dict_get ?sd1 ''index'' JNull) = Some 3"
      "dict_get ?sd1 ''metrics'' (JDict []) = JDict ?md"
      "as_int (dict_get ?sd2 ''index'' JNull) = Some 3"
      "dict_get ?sd2 ''metrics'' (JDict []) = JDict ?md"
      "is_number (dict_get ?md ''volume_mm3'' JNull)"
      "to_float exact (dict_get ?md ''volume_mm3'' JNull) = Inr (Fin 2)"
    by (simp_all add: dict_get_def)
  from extract_volumes_object_name_fallback [OF a(1,2,5,6), of "''Body''"]
    extract_volumes_object_name_fallback [OF a(3,4,5,6), of "''Body''"]
  show ?thesis by simp
qed

section \<open>Properties of the matcher\<close>

lemma fdiv_positive: "fgt denom (Fin 0) \<Longrightarrow> \<exists>q. fdiv R err denom = Inr q"
  by (cases denom; cases err) (auto simp: fgt_def)

lemma fuzzy_compare_Inr:
  "\<exists>re. fuzzy_compare R cfg rel_tol k b n =
     Inr \<lparr>key = k, baseline = Some b, new = Some n, rel_err = Some re,
          ok = fle (fabs (fsub R n b)) (pymax (abs_tol_mm3 cfg) (fmul R rel_tol (pymax (fabs b) (fabs n)))),
          reason = (if fle (fabs (fsub R n b))
                         (pymax (abs_tol_mm3 cfg) (fmul R rel_tol (pymax (fabs b) (fabs n))))
                    then ''ok'' else ''volume_mismatch'')\<rparr>
     \<and> (fgt (pymax (fabs b) (fabs n)) (Fin 0) \<longrightarrow>
          fdiv R (fabs (fsub R n b)) (pymax (fabs b) (fabs n)) = Inr re)
     \<and> (\<not> fgt (pymax (fabs b) (fabs n)) (Fin 0) \<longrightarrow>
          re = (if feq (fabs (fsub R n b)) (Fin 0) then Fin 0 else PInf))"
proof (cases "fgt (pymax (fabs b) (fabs n)) (Fin 0)")
  case True
  then obtain q where "fdiv R (fabs (fsub R n b)) (pymax (fabs b) (fabs n)) = Inr q"
    using fdiv_positive by blast
  with True show ?thesis
    by (simp add: fuzzy_compare_def Let_def)
next
  case False
  then show ?thesis
    by (simp add: fuzzy_compare_def Let_def)
qed

lemma compare_key_Inr: "\<exists>d. compare_key R bm nm cfg rt k = Inr d \<and> key d = k"
proof (cases "map_of bm k")
  case None
  then show ?thesis by (simp add: compare_key_def)
next
  case (Some b)
  show ?thesis
  proof (cases "map_of nm k")
    case None
    with Some show ?thesis by (simp add: compare_key_def)
  next
    case (Some n)
    with \<open>map_of bm k = Some b\<close> fuzzy_compare_Inr [of R cfg rt k b n]
    show ?thesis by (auto simp add: compare_key_def)
  qed
qed

lemma compare_loop_Inr:
  "\<exists>ds. compare_loop R bm nm cfg rt ks acc = Inr (acc @ ds) \<and> map key ds = ks
      \<and> (\<forall>d \<in> set ds. compare_key R bm nm cfg rt (key d) = Inr d)"
proof (induction ks arbitrary: acc)
  case Nil
  then show ?case by simp
next
  case (Cons k ks)
  obtain d where d: "compare_key R bm nm cfg rt k = Inr d" "key d = k"
    using compare_key_Inr by blast
  obtain ds where ds: "compare_loop R bm nm cfg rt ks (acc @ [d]) = Inr ((acc @ [d]) @ ds)"
      "map key ds = ks" "\<forall>d \<in> set ds. compare_key R bm nm cfg rt (key d) = Inr d"
    using Cons.IH by blast
  have "compare_loop R bm nm cfg rt (k # ks) acc = Inr (acc @ (d # ds))"
    using d ds by simp
  moreover have "map key (d # ds) = k # ks" using d ds by simp
  moreover have "\<forall>d' \<in> set (d # ds). compare_key R bm nm cfg rt (key d') = Inr d'"
    using d ds by simp
  ultimately show ?case by (intro exI [of _ "d # ds"] conjI)
qed

lemma compare_maps_Inr:
  assumes "required_rel_tol R (match_pct cfg) = Inr rt"
  shows "\<exists>ds. compare_maps R bm nm cfg = Inr ds
           \<and> map key ds = sort (all_keys bm nm)
           \<and> (\<forall>d \<in> set ds. compare_key R bm nm cfg rt (key d) = Inr d)"
  using compare_loop_Inr [of R bm nm cfg rt "sort (all_keys bm nm)" "[]"] assms
  by (simp add: compare_maps_def)

lemma key_le_iff: "key_le k k' \<longleftrightarrow> k \<le> k'"
  by (auto simp: key_le_def less_eq_prod_def)

lemma sorted_wrt_key_le: "sorted_wrt key_le ks = sorted ks"
proof -
  have "key_le = (\<le>)" by (intro ext) (rule key_le_iff)
  then show ?thesis by simp
qed

lemma set_all_keys: "set (all_keys bm nm) = fst ` set bm \<union> fst ` set nm"
  by (simp add: all_keys_def)

lemma distinct_all_keys: "distinct (all_keys bm nm)"
  by (simp add: all_keys_def)

lemma filter_unique:
  "distinct (map f xs) \<Longrightarrow> x \<in> set xs \<Longrightarrow> filter (\<lambda>y. f y = f x) xs = [x]"
proof (induction xs)
  case Nil
  then show ?case by simp
next
  case (Cons a xs)
  show ?case
  proof (cases "a = x")
    case True
    with Cons.prems have "f x \<notin> f ` set xs" by simp
    then have "\<forall>y \<in> set xs. f y \<noteq> f x" by (metis imageI)
    then have "filter (\<lambda>y. f y = f x) xs = []" by (simp add: filter_empty_conv)
    with True show ?thesis by simp
  next
    case False
    with Cons.prems have "x \<in> set xs" "f a \<noteq> f x" by auto
    with Cons show ?thesis by simp
  qed
qed

lemma in_range_tol:
  assumes "flt (Fin 0) m \<and> fle m (Fin 100)"
  shows "\<exists>rt. required_rel_tol R m = Inr rt"
proof -
  from assms obtain x where "m = Fin x" "0 < x" "x \<le> 100"
    by (cases m) (auto simp: fle_def)
  then show ?thesis by (simp add: required_rel_tol_def)
qed

lemma compare_maps_outcome:
  assumes "required_rel_tol R (match_pct cfg) = Inr rt"
    and "k \<in> fst ` set bm \<union> fst ` set nm"
  shows "\<exists>ds d. compare_maps R bm nm cfg = Inr ds \<and> filter (\<lambda>d. key d = k) ds = [d]
           \<and> compare_key R bm nm cfg rt k = Inr d"
proof -
  obtain ds where ds: "compare_maps R bm nm cfg = Inr ds"
      "map key ds = sort (all_keys bm nm)"
      "\<forall>d \<in> set ds. compare_key R bm nm cfg rt (key d) = Inr d"
    using compare_maps_Inr [OF assms(1)] by blast
  have "k \<in> set (map key ds)"
    unfolding ds(2) using assms(2) by (simp add: set_all_keys)
  then obtain d where d: "d \<in> set ds" "key d = k" by auto
  have "distinct (map key ds)"
    using ds(2) by (simp add: distinct_all_keys)
  then have "filter (\<lambda>y. key y = key d) ds = [d]"
    using d(1) by (rule filter_unique)
  with d ds show ?thesis by auto
qed

lemma sorted_keys_unique:
  assumes "set ks = set (all_keys bm nm)" and "distinct ks"
  shows "sort_key (\<lambda>k. (fst k, snd k)) ks = sort_key (\<lambda>k. (fst k, snd k)) (all_keys bm nm)"
proof -
  have "sort ks = sort (all_keys bm nm)"
    using assms by (intro sorted_distinct_set_unique) (simp_all add: distinct_all_keys)
  then show ?thesis by simp
qed

lemma feq_not_fgt: "feq a b \<Longrightarrow> \<not> fgt a b"
  by (cases a; cases b) (auto simp: fgt_def)

lemma pymax_zero_nonneg: "a \<noteq> NaN \<Longrightarrow> fle (Fin 0) (pymax a (Fin 0))"
  by (cases a) (auto simp: pymax_def fgt_def fle_def)

lemma compare_maps_returns:
  "compare_maps R bm nm cfg = Inr ds \<Longrightarrow> \<exists>rt. required_rel_tol R (match_pct cfg) = Inr rt"
  by (auto simp: compare_maps_def split: sum.splits)

text \<open>
  C1. For a key \<open>k\<close> with the value \<open>b\<close> in the baseline map and \<open>n\<close> in the new map,
  the list that \<open>compare_maps\<close> returns has exactly one outcome for \<open>k\<close>. With
  \<open>err = |n - b|\<close>, \<open>denom = max(|b|, |n|)\<close> and
  \<open>threshold = max(abs_tol_mm3, rel_tol * denom)\<close>, it passes if and only if
  \<open>err \<le> threshold\<close>; its relative error is \<open>err / denom\<close> when \<open>denom > 0\<close>, and
  when \<open>denom = 0\<close> it is \<open>0.0\<close> if \<open>err = 0\<close> and infinity otherwise.
\<close>

theorem compare_maps_fuzzy_outcome:
  assumes "required_rel_tol R (match_pct cfg) = Inr rel_tol"
    and "map_of baseline_map k = Some b"
    and "map_of new_map k = Some n"
    and "err = fabs (fsub R n b)"
    and "denom = pymax (fabs b) (fabs n)"
    and "threshold = pymax (abs_tol_mm3 cfg) (fmul R rel_tol denom)"
  shows "\<exists>ds re. compare_maps R baseline_map new_map cfg = Inr ds
           \<and> filter (\<lambda>d. key d = k) ds =
               [\<lparr>key = k, baseline = Some b, new = Some n, rel_err = Some re,
                 ok = fle err threshold,
                 reason = (if fle err threshold then ''ok'' else ''volume_mismatch'')\<rparr>]
           \<and> (fgt denom (Fin 0) \<longrightarrow> fdiv R err denom = Inr re)
           \<and> (feq denom (Fin 0) \<longrightarrow> re = (if feq err (Fin 0) then Fin 0 else PInf))"
proof -
  have "k \<in> fst ` set baseline_map \<union> fst ` set new_map"
    using assms(2) by (auto dest: map_of_SomeD intro: image_eqI [where x = "(k, b)"])
  then obtain ds d where ds: "compare_maps R baseline_map new_map cfg = Inr ds"
      "filter (\<lambda>d. key d = k) ds = [d]"
      "compare_key R baseline_map new_map cfg rel_tol k = Inr d"
    using compare_maps_outcome [OF assms(1)] by blast
  have d: "fuzzy_compare R cfg rel_tol k b n = Inr d"
    using ds(3) assms(2,3) by (simp add: compare_key_def)
  obtain re where re:
    "d = \<lparr>key = k, baseline = Some b, new = Some n, rel_err = Some re,
          ok = fle err threshold,
          reason = (if fle err threshold then ''ok'' else ''volume_mismatch'')\<rparr>"
    "fgt denom (Fin 0) \<longrightarrow> fdiv R err denom = Inr re"
    "\<not> fgt denom (Fin 0) \<longrightarrow> re = (if feq err (Fin 0) then Fin 0 else PInf)"
    using fuzzy_compare_Inr [of R cfg rel_tol k b n] d
    unfolding assms(4,5,6) by auto
  have "feq denom (Fin 0) \<longrightarrow> re = (if feq err (Fin 0) then Fin 0 else PInf)"
    using re(3) feq_not_fgt by blast
  with ds(1,2) re(1,2) show ?thesis by blast
qed

theorem compare_maps_fuzzy_outcome_witness:
  "compare_maps exact [((''A'', 0), Fin 100)] [((''A'', 0), Fin 101)]
      \<lparr>match_pct = Fin 50, abs_tol_mm3 = Fin 0\<rparr>
     = Inr [\<lparr>key = (''A'', 0), baseline = Some (Fin 100), new = Some (Fin 101),
             rel_err = Some (Fin (1 / 101)), ok = True, reason = ''ok''\<rparr>]
   \<and> fdiv exact (Fin 1) (Fin 101) = Inr (Fin (1 / 101))"
proof -
  let ?cfg = "\<lparr>match_pct = Fin 50, abs_tol_mm3 = Fin 0\<rparr>"
  let ?bm = "[((''A'', 0 :: int), Fin 100)]"
  let ?nm = "[((''A'', 0 :: int), Fin 101)]"
  have rt: "required_rel_tol exact (match_pct ?cfg) = Inr (Fin (1 / 2))"
    by (simp add: required_rel_tol_def exact_def)
  have b: "map_of ?bm (''A'', 0) = Some (Fin 100)" and n: "map_of ?nm (''A'', 0) = Some (Fin 101)"
    by simp_all
  have err: "Fin 1 = fabs (fsub exact (Fin 101) (Fin 100))"
    by (simp add: exact_def)
  have denom: "Fin 101 = pymax (fabs (Fin 100)) (fabs (Fin 101))"
    by (simp add: pymax_def fgt_def)
  have thr: "Fin (101 / 2) = pymax (abs_tol_mm3 ?cfg) (fmul exact (Fin (1 / 2)) (Fin 101))"
    by (simp add: pymax_def fgt_def exact_def)
  note T = compare_maps_fuzzy_outcome [OF rt b n err denom thr]
  have E: "compare_maps exact ?bm ?nm ?cfg
     = Inr [\<lparr>key = (''A'', 0), baseline = Some (Fin 100), new = Some (Fin 101),
             rel_err = Some (Fin (1 / 101)), ok = True, reason = ''ok''\<rparr>]"
    by (simp add: compare_maps_def required_rel_tol_def all_keys_def compare_key_def
        fuzzy_compare_def pymax_def fgt_def exact_def Let_def)
  from T E show ?thesis
    by (auto simp: fgt_def)
qed

text \<open>
  C4. Whatever the two maps are, the list that \<open>compare_maps\<close> returns has exactly the
  keys of the union of their key sets, each once (no key is skipped and none is added),
  ordered by entity name and then by index; and \<open>compare_maps\<close> returns a list whenever
  the match percentage is in (0, 100].
\<close>

theorem compare_maps_complete_sorted:
  "(flt (Fin 0) (match_pct cfg) \<and> fle (match_pct cfg) (Fin 100) \<longrightarrow>
      (\<exists>ds. compare_maps R baseline_map new_map cfg = Inr ds))
   \<and> (compare_maps R baseline_map new_map cfg = Inr ds \<longrightarrow>
        set (map key ds) = fst ` set baseline_map \<union> fst ` set new_map
        \<and> distinct (map key ds)
        \<and> sorted_wrt key_le (map key ds))"
proof (intro conjI impI)
  assume "flt (Fin 0) (match_pct cfg) \<and> fle (match_pct cfg) (Fin 100)"
  then obtain rt where "required_rel_tol R (match_pct cfg) = Inr rt"
    using in_range_tol by blast
  then show "\<exists>ds. compare_maps R baseline_map new_map cfg = Inr ds"
    using compare_maps_Inr by blast
next
  assume ds: "compare_maps R baseline_map new_map cfg = Inr ds"
  then obtain rt where "required_rel_tol R (match_pct cfg) = Inr rt"
    using compare_maps_returns by blast
  then have ks: "map key ds = sort (all_keys baseline_map new_map)"
    using compare_maps_Inr [of R cfg rt baseline_map new_map] ds by auto
  show "set (map key ds) = fst ` set baseline_map \<union> fst ` set new_map"
    unfolding ks by (simp add: set_all_keys)
  show "distinct (map key ds)"
    unfolding ks by (simp add: distinct_all_keys)
  show "sorted_wrt key_le (map key ds)"
    unfolding ks by (simp add: sorted_wrt_key_le)
qed

theorem compare_maps_complete_sorted_witness:
  "\<exists>ds. compare_maps exact
           [((''B'', 1), Fin 5), ((''A'', 2), Fin 1)]
           [((''A'', 10), Fin 2), ((''A'', 2), Fin 1), ((''AB'', 0), Fin 1)]
           \<lparr>match_pct = Fin 50, abs_tol_mm3 = Fin 0\<rparr> = Inr ds
      \<and> map key ds = [(''A'', 2), (''A'', 10), (''AB'', 0), (''B'', 1)]"
proof -
  let ?cfg = "\<lparr>match_pct = Fin 50, abs_tol_mm3 = Fin 0\<rparr>"
  let ?bm = "[((''B'', 1 :: int), Fin 5), ((''A'', 2), Fin 1)]"
  let ?nm = "[((''A'', 10 :: int), Fin 2), ((''A'', 2), Fin 1), ((''AB'', 0), Fin 1)]"
  have h: "flt (Fin 0) (match_pct ?cfg) \<and> fle (match_pct ?cfg) (Fin 100)"
    by simp
  from compare_maps_complete_sorted [of ?cfg exact ?bm ?nm] h
  obtain ds where ds: "compare_maps exact ?bm ?nm ?cfg = Inr ds"
    by blast
  from compare_maps_complete_sorted [of ?cfg exact ?bm ?nm ds] ds
  have p: "set (map key ds) = fst ` set ?bm \<union> fst ` set ?nm"
    "distinct (map key ds)" "sorted_wrt key_le (map key ds)"
    by blast+
  have "sorted (map key ds)"
    using p(3) by (simp add: sorted_wrt_key_le)
  moreover have "sorted [(''A'', 2 :: int), (''A'', 10), (''AB'', 0), (''B'', 1)]"
    by simp
  moreover have "distinct [(''A'', 2 :: int), (''A'', 10), (''AB'', 0), (''B'', 1)]"
    by simp
  moreover have "set (map key ds) = set [(''A'', 2 :: int), (''A'', 10), (''AB'', 0), (''B'', 1)]"
    unfolding p(1) by auto
  ultimately have "map key ds = [(''A'', 2), (''A'', 10), (''AB'', 0), (''B'', 1)]"
    using p(2) by (intro sorted_distinct_set_unique)
  with ds show ?thesis by (intro exI [of _ ds] conjI)
qed

text \<open>
  C6. In the list that \<open>compare_maps\<close> returns, a key that only the baseline map has
  yields the one outcome \<^verbatim>\<open>missing_in_new\<close>, and a key that only the new map has yields
  the one outcome \<^verbatim>\<open>missing_in_baseline\<close>; both fail and have no relative error. A
  list is returned whenever the match percentage is in (0, 100].
\<close>

theorem compare_maps_missing_outcomes:
  "(flt (Fin 0) (match_pct cfg) \<and> fle (match_pct cfg) (Fin 100) \<longrightarrow>
      (\<exists>ds. compare_maps R baseline_map new_map cfg = Inr ds))
   \<and> (compare_maps R baseline_map new_map cfg = Inr ds \<longrightarrow>
        (\<forall>k b. map_of baseline_map k = Some b \<and> map_of new_map k = None \<longrightarrow>
          filter (\<lambda>d. key d = k) ds =
            [\<lparr>key = k, baseline = Some b, new = None, rel_err = None, ok = False,
              reason = ''missing_in_new''\<rparr>])
        \<and> (\<forall>k n. map_of baseline_map k = None \<and> map_of new_map k = Some n \<longrightarrow>
          filter (\<lambda>d. key d = k) ds =
            [\<lparr>key = k, baseline = None, new = Some n, rel_err = None, ok = False,
              reason = ''missing_in_baseline''\<rparr>]))"
proof (intro conjI impI allI)
  assume "flt (Fin 0) (match_pct cfg) \<and> fle (match_pct cfg) (Fin 100)"
  then obtain rt where "required_rel_tol R (match_pct cfg) = Inr rt"
    using in_range_tol by blast
  then show "\<exists>ds. compare_maps R baseline_map new_map cfg = Inr ds"
    using compare_maps_Inr by blast
next
  fix k b
  assume ds: "compare_maps R baseline_map new_map cfg = Inr ds"
    and kb: "map_of baseline_map k = Some b \<and> map_of new_map k = None"
  obtain rt where rt: "required_rel_tol R (match_pct cfg) = Inr rt"
    using compare_maps_returns [OF ds] by blast
  have "k \<in> fst ` set baseline_map \<union> fst ` set new_map"
    using kb by (auto dest: map_of_SomeD intro: image_eqI [where x = "(k, b)"])
  then obtain ds' d where "compare_maps R baseline_map new_map cfg = Inr ds'"
    "filter (\<lambda>d. key d = k) ds' = [d]"
    "compare_key R baseline_map new_map cfg rt k = Inr d"
    using compare_maps_outcome [OF rt] by blast
  with kb ds show "filter (\<lambda>d. key d = k) ds =
            [\<lparr>key = k, baseline = Some b, new = None, rel_err = None, ok = False,
              reason = ''missing_in_new''\<rparr>]"
    by (auto simp: compare_key_def)
next
  fix k n
  assume ds: "compare_maps R baseline_map new_map cfg = Inr ds"
    and kn: "map_of baseline_map k = None \<and> map_of new_map k = Some n"
  obtain rt where rt: "required_rel_tol R (match_pct cfg) = Inr rt"
    using compare_maps_returns [OF ds] by blast
  have "k \<in> fst ` set baseline_map \<union> fst ` set new_map"
    using kn by (auto dest: map_of_SomeD intro: image_eqI [where x = "(k, n)"])
  then obtain ds' d where "compare_maps R baseline_map new_map cfg = Inr ds'"
    "filter (\<lambda>d. key d = k) ds' = [d]"
    "compare_key R baseline_map new_map cfg rt k = Inr d"
    using compare_maps_outcome [OF rt] by blast
  with kn ds show "filter (\<lambda>d. key d = k) ds =
            [\<lparr>key = k, baseline = None, new = Some n, rel_err = None, ok = False,
              reason = ''missing_in_baseline''\<rparr>]"
    by (auto simp: compare_key_def)
qed

theorem compare_maps_missing_outcomes_witness:
  "compare_maps exact [((''A'', 0), Fin 1)] [((''B'', 1), Fin 5)]
      \<lparr>match_pct = Fin 50, abs_tol_mm3 = Fin 0\<rparr>
     = Inr [\<lparr>key = (''A'', 0), baseline = Some (Fin 1), new = None, rel_err = None,
             ok = False, reason = ''missing_in_new''\<rparr>,
            \<lparr>key = (''B'', 1), baseline = None, new = Some (Fin 5), rel_err = None,
             ok = False, reason = ''missing_in_baseline''\<rparr>]"
proof -
  let ?cfg = "\<lparr>match_pct = Fin 50, abs_tol_mm3 = Fin 0\<rparr>"
  let ?bm = "[((''A'', 0 :: int), Fin 1)]"
  let ?nm = "[((''B'', 1 :: int), Fin 5)]"
  let ?ds = "[\<lparr>key = (''A'', 0), baseline = Some (Fin 1), new = None, rel_err = None,
             ok = False, reason = ''missing_in_new''\<rparr>,
            \<lparr>key = (''B'', 1), baseline = None, new = Some (Fin 5), rel_err = None,
             ok = False, reason = ''missing_in_baseline''\<rparr>]"
  have h: "flt (Fin 0) (match_pct ?cfg) \<and> fle (match_pct ?cfg) (Fin 100)"
    by simp
  have E: "compare_maps exact ?bm ?nm ?cfg = Inr ?ds"
    by (simp add: compare_maps_def required_rel_tol_def all_keys_def compare_key_def exact_def)
  from compare_maps_missing_outcomes [of ?cfg exact ?bm ?nm ?ds] h E
  have "filter (\<lambda>d. key d = (''A'', 0)) ?ds =
            [\<lparr>key = (''A'', 0), baseline = Some (Fin 1), new = None, rel_err = None, ok = False,
              reason = ''missing_in_new''\<rparr>]"
    by simp
  with E show ?thesis by simp
qed

text \<open>
  C7, as the code has it. When the baseline value and the new value of a key are both
  \<open>0.0\<close>, the outcome has the relative error \<open>0.0\<close> and passes with the reason
  \<^verbatim>\<open>ok\<close>, for every configuration whose match percentage \<open>required_rel_tol\<close> accepts
  (with a finite tolerance, which every accepted percentage has when the rounding is
  exact) and whose absolute tolerance is not NaN: a negative absolute tolerance passes
  too. (\<open>0.0 - 0.0\<close> is \<open>0.0\<close> under every rounding that leaves zero alone.)
\<close>

theorem compare_maps_both_zero:
  assumes "required_rel_tol R (match_pct cfg) = Inr (Fin t)"
    and "abs_tol_mm3 cfg \<noteq> NaN"
    and "R 0 = Fin 0"
    and "map_of baseline_map k = Some (Fin 0)"
    and "map_of new_map k = Some (Fin 0)"
  shows "\<exists>ds. compare_maps R baseline_map new_map cfg = Inr ds
           \<and> filter (\<lambda>d. key d = k) ds =
               [\<lparr>key = k, baseline = Some (Fin 0), new = Some (Fin 0), rel_err = Some (Fin 0),
                 ok = True, reason = ''ok''\<rparr>]"
proof -
  have "k \<in> fst ` set baseline_map \<union> fst ` set new_map"
    using assms(4) by (auto dest: map_of_SomeD intro: image_eqI [where x = "(k, Fin 0)"])
  then obtain ds d where ds: "compare_maps R baseline_map new_map cfg = Inr ds"
      "filter (\<lambda>d. key d = k) ds = [d]"
      "compare_key R baseline_map new_map cfg (Fin t) k = Inr d"
    using compare_maps_outcome [OF assms(1)] by blast
  have d: "fuzzy_compare R cfg (Fin t) k (Fin 0) (Fin 0) = Inr d"
    using ds(3) assms(4,5) by (simp add: compare_key_def)
  have "fle (Fin 0) (pymax (abs_tol_mm3 cfg) (Fin 0))"
    using assms(2) by (rule pymax_zero_nonneg)
  then have "d = \<lparr>key = k, baseline = Some (Fin 0), new = Some (Fin 0), rel_err = Some (Fin 0),
                 ok = True, reason = ''ok''\<rparr>"
    using d by (simp add: fuzzy_compare_def Let_def assms(3) pymax_def [of "Fin 0" "Fin 0"] fgt_def)
  with ds show ?thesis by blast
qed

theorem compare_maps_both_zero_witness:
  "compare_maps exact [((''A'', 0), Fin 0)] [((''A'', 0), Fin 0)]
      \<lparr>match_pct = Fin 100, abs_tol_mm3 = Fin (- 1)\<rparr>
     = Inr [\<lparr>key = (''A'', 0), baseline = Some (Fin 0), new = Some (Fin 0),
             rel_err = Some (Fin 0), ok = True, reason = ''ok''\<rparr>]"
proof -
  let ?cfg = "\<lparr>match_pct = Fin 100, abs_tol_mm3 = Fin (- 1)\<rparr>"
  let ?m = "[((''A'', 0 :: int), Fin 0)]"
  have h: "required_rel_tol exact (match_pct ?cfg) = Inr (Fin 0)"
      "abs_tol_mm3 ?cfg \<noteq> NaN" "exact 0 = Fin 0"
      "map_of ?m (''A'', 0) = Some (Fin 0)"
    by (simp_all add: exact_def required_rel_tol_def)
  from compare_maps_both_zero [where R = exact, OF h(1,2,3,4,4)]
  obtain ds where ds: "compare_maps exact ?m ?m ?cfg = Inr ds"
    "filter (\<lambda>d. key d = (''A'', 0)) ds =
               [\<lparr>key = (''A'', 0), baseline = Some (Fin 0), new = Some (Fin 0),
                 rel_err = Some (Fin 0), ok = True, reason = ''ok''\<rparr>]"
    by blast
  have "compare_maps exact ?m ?m ?cfg
     = Inr [\<lparr>key = (''A'', 0), baseline = Some (Fin 0), new = Some (Fin 0),
             rel_err = Some (Fin 0), ok = True, reason = ''ok''\<rparr>]"
    by (simp add: compare_maps_def required_rel_tol_def all_keys_def compare_key_def
        fuzzy_compare_def pymax_def fgt_def exact_def Let_def)
  with ds show ?thesis by simp
qed

text \<open>
  C7 as stated fails: with the absolute tolerance NaN the threshold
  \<^verbatim>\<open>max(abs_tol_mm3, rel_tol * denom)\<close> is NaN, \<^verbatim>\<open>err <= tol\<close> is false and the outcome
  is a \<^verbatim>\<open>volume_mismatch\<close>; with the match percentage 0, \<open>compare_maps\<close> raises
  \<^verbatim>\<open>ValueError\<close> and reports nothing.
\<close>

theorem compare_maps_both_zero_counterexample:
  "compare_maps exact [((''A'', 0), Fin 0)] [((''A'', 0), Fin 0)]
      \<lparr>match_pct = Fin 50, abs_tol_mm3 = NaN\<rparr>
     = Inr [\<lparr>key = (''A'', 0), baseline = Some (Fin 0), new = Some (Fin 0),
             rel_err = Some (Fin 0), ok = False, reason = ''volume_mismatch''\<rparr>]
   \<and> compare_maps exact [((''A'', 0), Fin 0)] [((''A'', 0), Fin 0)]
      \<lparr>match_pct = Fin 0, abs_tol_mm3 = Fin 0\<rparr>
     = Inl ValueError"
  by (simp add: compare_maps_def required_rel_tol_def all_keys_def compare_key_def
        fuzzy_compare_def pymax_def fgt_def exact_def Let_def)

section \<open>Properties of the run orchestrator\<close>

lemma process_file_missing_baseline:
  "\<not> baseline_exists f \<Longrightarrow>
     process_file R cfg f t =
       t\<lparr>total_files := total_files t + 1, mismatch_files := mismatch_files t + 1\<rparr>"
  by (simp add: process_file_def)

lemma process_file_cases:
  "process_file R cfg f t =
     (if file_error R cfg f
      then t\<lparr>total_files := total_files t + 1, error_files := error_files t + 1,
             tool_runs := tool_runs t @ [file_name f]\<rparr>
      else if file_mismatch R cfg f
      then t\<lparr>total_files := total_files t + 1, mismatch_files := mismatch_files t + 1,
             tool_runs := tool_runs t @ (if baseline_exists f then [file_name f] else [])\<rparr>
      else t\<lparr>total_files := total_files t + 1, ok_files := ok_files t + 1,
             tool_runs := tool_runs t @ [file_name f]\<rparr>)"
  by (cases "file_diffs R cfg f")
     (auto simp: process_file_def file_error_def file_mismatch_def Let_def
        list_ex_iff filter_empty_conv)

lemma fold_process_file:
  "fold (process_file R cfg) fs t =
     t\<lparr>total_files := total_files t + length fs,
       ok_files := ok_files t
          + length (filter (\<lambda>f. \<not> file_error R cfg f \<and> \<not> file_mismatch R cfg f) fs),
       mismatch_files := mismatch_files t
          + length (filter (\<lambda>f. \<not> file_error R cfg f \<and> file_mismatch R cfg f) fs),
       error_files := error_files t + length (filter (file_error R cfg) fs),
       tool_runs := tool_runs t @ map file_name (filter baseline_exists fs)\<rparr>"
proof (induction fs arbitrary: t)
  case Nil
  then show ?case by simp
next
  case (Cons f fs)
  have step: "fold (process_file R cfg) (f # fs) t
      = fold (process_file R cfg) fs (process_file R cfg f t)"
    by simp
  have "file_error R cfg f \<Longrightarrow> baseline_exists f"
    by (simp add: file_error_def)
  moreover have "\<not> file_mismatch R cfg f \<Longrightarrow> baseline_exists f"
    by (auto simp: file_mismatch_def)
  ultimately show ?case
    unfolding step Cons.IH by (simp add: process_file_cases)
qed

lemma file_error_not_mismatch: "file_error R cfg f \<Longrightarrow> \<not> file_mismatch R cfg f"
  by (cases "file_diffs R cfg f") (auto simp: file_error_def file_mismatch_def)

lemma compare_maps_invalid:
  "\<not> (flt (Fin 0) (match_pct cfg) \<and> fle (match_pct cfg) (Fin 100))
    \<Longrightarrow> compare_maps R bm nm cfg = Inl ValueError"
  by (simp add: compare_maps_def required_rel_tol_def)

lemma file_diffs_invalid:
  "\<not> (flt (Fin 0) (match_pct cfg) \<and> fle (match_pct cfg) (Fin 100))
    \<Longrightarrow> isl (file_diffs R cfg f)"
  by (simp add: file_diffs_def compare_maps_invalid split: sum.splits)

lemma file_diffs_out_of_range:
  assumes "\<not> (flt (Fin 0) (match_pct cfg) \<and> fle (match_pct cfg) (Fin 100))"
  shows "file_diffs R cfg f =
     (case tool_result f of
        Inl e \<Rightarrow> Inl e
      | Inr new_report \<Rightarrow>
          (case baseline_load f of
             Inl e \<Rightarrow> Inl e
           | Inr base_report \<Rightarrow>
               (case extract_volumes R new_report of
                  Inl e \<Rightarrow> Inl e
                | Inr new_map \<Rightarrow>
                    (case extract_volumes R base_report of
                       Inl e \<Rightarrow> Inl e
                     | Inr base_map \<Rightarrow> Inl ValueError))))"
  by (simp add: file_diffs_def compare_maps_invalid [OF assms] split: sum.splits)

lemma main_out_of_range:
  assumes "\<not> (flt (Fin 0) (match_pct cfg) \<and> fle (match_pct cfg) (Fin 100))"
    and "freecad_exists w \<and> script_exists w \<and> fcstd_dir_exists w \<and> baseline_dir_exists w"
    and "fcstd_files w \<noteq> []"
  shows "main R cfg w = (Inl ValueError, fold (process_file R cfg) (fcstd_files w) tally0)"
proof -
  have "required_rel_tol R (match_pct cfg) = Inl ValueError"
    using assms(1) by (simp add: required_rel_tol_def)
  then show ?thesis
    using assms(2,3) by (simp add: main_def Let_def)
qed

lemma out_of_range_file_error:
  assumes "\<not> (flt (Fin 0) (match_pct cfg) \<and> fle (match_pct cfg) (Fin 100))"
  shows "file_error R cfg = baseline_exists"
  using file_diffs_invalid [OF assms] by (intro ext) (simp add: file_error_def)

lemma out_of_range_file_mismatch:
  assumes "\<not> (flt (Fin 0) (match_pct cfg) \<and> fle (match_pct cfg) (Fin 100))"
  shows "file_mismatch R cfg = (\<lambda>f. \<not> baseline_exists f)"
proof
  fix f
  show "file_mismatch R cfg f = (\<not> baseline_exists f)"
    using file_diffs_invalid [OF assms, of R f]
    by (cases "file_diffs R cfg f") (simp_all add: file_mismatch_def)
qed

text \<open>
  Under a match percentage in (0, 100], a run that reaches the loop over the files
  returns the status 3 if a file ended in an execution error, else 2 if a file has a
  failing outcome or no baseline, else 0; a file with no baseline counts as a mismatch
  and never as an execution error.
\<close>

lemma main_exit_status_in_range:
  assumes "freecad_exists w \<and> script_exists w \<and> fcstd_dir_exists w \<and> baseline_dir_exists w"
    and "fcstd_files w \<noteq> []"
  shows "(flt (Fin 0) (match_pct cfg) \<and> fle (match_pct cfg) (Fin 100) \<longrightarrow>
            (\<exists>s. fst (main R cfg w) = Inr s))
         \<and> (fst (main R cfg w) = Inr s \<longrightarrow>
              s = (if \<exists>f \<in> set (fcstd_files w). file_error R cfg f then 3
                   else if \<exists>f \<in> set (fcstd_files w). file_mismatch R cfg f then 2
                   else 0))
         \<and> (\<forall>f t. \<not> baseline_exists f \<longrightarrow>
               file_mismatch R cfg f \<and> \<not> file_error R cfg f
               \<and> mismatch_files (process_file R cfg f t) = mismatch_files t + 1
               \<and> error_files (process_file R cfg f t) = error_files t)"
proof -
  let ?fs = "fcstd_files w"
  let ?t = "fold (process_file R cfg) ?fs tally0"
  have main: "fst (main R cfg w) =
      (case required_rel_tol R (match_pct cfg) of
         Inl e \<Rightarrow> Inl e
       | Inr rel_tol \<Rightarrow>
           Inr (if error_files ?t > 0 then 3 else if mismatch_files ?t > 0 then 2 else 0))"
    using assms by (simp add: main_def Let_def split: sum.splits)
  have e: "error_files ?t > 0 \<longleftrightarrow> (\<exists>f \<in> set ?fs. file_error R cfg f)"
    by (simp add: fold_process_file tally0_def filter_empty_conv)
  have m: "mismatch_files ?t > 0 \<longleftrightarrow>
      (\<exists>f \<in> set ?fs. \<not> file_error R cfg f \<and> file_mismatch R cfg f)"
    by (simp add: fold_process_file tally0_def filter_empty_conv)
  have m': "(\<exists>f \<in> set ?fs. \<not> file_error R cfg f \<and> file_mismatch R cfg f)
      \<longleftrightarrow> (\<exists>f \<in> set ?fs. file_mismatch R cfg f)"
    using file_error_not_mismatch by blast
  have 1: "flt (Fin 0) (match_pct cfg) \<and> fle (match_pct cfg) (Fin 100) \<longrightarrow>
            (\<exists>s. fst (main R cfg w) = Inr s)"
  proof
    assume "flt (Fin 0) (match_pct cfg) \<and> fle (match_pct cfg) (Fin 100)"
    then obtain rt where "required_rel_tol R (match_pct cfg) = Inr rt"
      using in_range_tol by blast
    then show "\<exists>s. fst (main R cfg w) = Inr s"
      unfolding main by simp
  qed
  have 2: "fst (main R cfg w) = Inr s \<longrightarrow>
              s = (if \<exists>f \<in> set (fcstd_files w). file_error R cfg f then 3
                   else if \<exists>f \<in> set (fcstd_files w). file_mismatch R cfg f then 2
                   else 0)"
    unfolding main e m m' by (auto split: sum.splits)
  have 3: "\<forall>f t. \<not> baseline_exists f \<longrightarrow>
               file_mismatch R cfg f \<and> \<not> file_error R cfg f
               \<and> mismatch_files (process_file R cfg f t) = mismatch_files t + 1
               \<and> error_files (process_file R cfg f t) = error_files t"
    by (simp add: process_file_missing_baseline file_mismatch_def file_error_def)
  from 1 2 3 show ?thesis by (intro conjI)
qed

text \<open>
  C5. The code does not reject a match percentage outside (0, 100] before the files are
  processed. \<^verbatim>\<open>main\<close> builds the configuration unchecked and enters the loop: the
  external tool is run on every file that has a baseline, and each of these files ends
  in the handler of its \<^verbatim>\<open>try\<close> and is counted as an execution error, with the
  exception of its tool run, of the loading of its baseline or of an extraction when
  one of them raises, and otherwise with the \<^verbatim>\<open>ValueError\<close> that \<open>required_rel_tol\<close>
  raises inside \<open>compare_maps\<close>; each file without a baseline is counted as a mismatch.
  Only after the loop, at the summary line, does a \<^verbatim>\<open>ValueError\<close> leave \<^verbatim>\<open>main\<close>.
\<close>

theorem main_out_of_range_not_rejected_eagerly:
  assumes "\<not> (flt (Fin 0) (match_pct cfg) \<and> fle (match_pct cfg) (Fin 100))"
    and "freecad_exists w \<and> script_exists w \<and> fcstd_dir_exists w \<and> baseline_dir_exists w"
    and "fcstd_files w \<noteq> []"
  shows "tool_runs (snd (main R cfg w)) = map file_name (filter baseline_exists (fcstd_files w))
     \<and> total_files (snd (main R cfg w)) = length (fcstd_files w)
     \<and> error_files (snd (main R cfg w)) = length (filter baseline_exists (fcstd_files w))
     \<and> mismatch_files (snd (main R cfg w))
          = length (filter (\<lambda>f. \<not> baseline_exists f) (fcstd_files w))
     \<and> ok_files (snd (main R cfg w)) = 0
     \<and> (\<forall>f. file_diffs R cfg f =
          (case tool_result f of
             Inl e \<Rightarrow> Inl e
           | Inr new_report \<Rightarrow>
               (case baseline_load f of
                  Inl e \<Rightarrow> Inl e
                | Inr base_report \<Rightarrow>
                    (case extract_volumes R new_report of
                       Inl e \<Rightarrow> Inl e
                     | Inr new_map \<Rightarrow>
                         (case extract_volumes R base_report of
                            Inl e \<Rightarrow> Inl e
                          | Inr base_map \<Rightarrow> Inl ValueError)))))
     \<and> fst (main R cfg w) = Inl ValueError"
proof -
  have m: "main R cfg w = (Inl ValueError, fold (process_file R cfg) (fcstd_files w) tally0)"
    using assms by (rule main_out_of_range)
  have t: "tool_runs (snd (main R cfg w)) = map file_name (filter baseline_exists (fcstd_files w))
     \<and> total_files (snd (main R cfg w)) = length (fcstd_files w)
     \<and> error_files (snd (main R cfg w)) = length (filter baseline_exists (fcstd_files w))
     \<and> mismatch_files (snd (main R cfg w))
          = length (filter (\<lambda>f. \<not> baseline_exists f) (fcstd_files w))
     \<and> ok_files (snd (main R cfg w)) = 0"
    unfolding m fold_process_file
    by (simp add: out_of_range_file_error [OF assms(1)] out_of_range_file_mismatch [OF assms(1)]
        tally0_def)
  have d: "\<forall>f. file_diffs R cfg f =
          (case tool_result f of
             Inl e \<Rightarrow> Inl e
           | Inr new_report \<Rightarrow>
               (case baseline_load f of
                  Inl e \<Rightarrow> Inl e
                | Inr base_report \<Rightarrow>
                    (case extract_volumes R new_report of
                       Inl e \<Rightarrow> Inl e
                     | Inr new_map \<Rightarrow>
                         (case extract_volumes R base_report of
                            Inl e \<Rightarrow> Inl e
                          | Inr base_map \<Rightarrow> Inl ValueError))))"
    using file_diffs_out_of_range [OF assms(1)] by blast
  have r: "fst (main R cfg w) = Inl ValueError"
    unfolding m by simp
  from t d r show ?thesis by blast
qed

theorem main_out_of_range_not_rejected_eagerly_witness:
  "main exact \<lparr>match_pct = Fin 0, abs_tol_mm3 = Fin 0\<rparr>
     \<lparr>freecad_exists = True, script_exists = True, fcstd_dir_exists = True,
      baseline_dir_exists = True,
      fcstd_files =
        [\<lparr>file_name = ''a.FCStd'', baseline_exists = True,
          tool_result = Inr (JDict []), baseline_load = Inr (JDict [])\<rparr>,
         \<lparr>file_name = ''b.FCStd'', baseline_exists = False,
          tool_result = Inr (JDict []), baseline_load = Inl OSError\<rparr>,
         \<lparr>file_name = ''c.FCStd'', baseline_exists = True,
          tool_result = Inl TimeoutExpired, baseline_load = Inr (JDict [])\<rparr>]\<rparr>
   = (Inl ValueError,
      \<lparr>total_files = 3, ok_files = 0, mismatch_files = 1, error_files = 2,
       tool_runs = [''a.FCStd'', ''c.FCStd'']\<rparr>)
   \<and> file_diffs exact \<lparr>match_pct = Fin 0, abs_tol_mm3 = Fin 0\<rparr>
        \<lparr>file_name = ''a.FCStd'', baseline_exists = True,
          tool_result = Inr (JDict []), baseline_load = Inr (JDict [])\<rparr> = Inl ValueError
   \<and> file_diffs exact \<lparr>match_pct = Fin 0, abs_tol_mm3 = Fin 0\<rparr>
        \<lparr>file_name = ''c.FCStd'', baseline_exists = True,
          tool_result = Inl TimeoutExpired, baseline_load = Inr (JDict [])\<rparr> = Inl TimeoutExpired"
proof -
  let ?cfg = "\<lparr>match_pct = Fin 0, abs_tol_mm3 = Fin 0\<rparr>"
  let ?a = "\<lparr>file_name = ''a.FCStd'', baseline_exists = True,
          tool_result = Inr (JDict []), baseline_load = Inr (JDict [])\<rparr>"
  let ?b = "\<lparr>file_name = ''b.FCStd'', baseline_exists = False,
          tool_result = Inr (JDict []), baseline_load = Inl OSError\<rparr>"
  let ?c = "\<lparr>file_name = ''c.FCStd'', baseline_exists = True,
          tool_result = Inl TimeoutExpired, baseline_load = Inr (JDict [])\<rparr>"
  let ?w = "\<lparr>freecad_exists = True, script_exists = True, fcstd_dir_exists = True,
      baseline_dir_exists = True, fcstd_files = [?a, ?b, ?c]\<rparr>"
  have h: "\<not> (flt (Fin 0) (match_pct ?cfg) \<and> fle (match_pct ?cfg) (Fin 100))"
      "freecad_exists ?w \<and> script_exists ?w \<and> fcstd_dir_exists ?w \<and> baseline_dir_exists ?w"
      "fcstd_files ?w \<noteq> []"
    by simp_all
  note T = main_out_of_range_not_rejected_eagerly [OF h, of exact]
  from T have 1: "fst (main exact ?cfg ?w) = Inl ValueError"
    by blast
  from T have 2: "snd (main exact ?cfg ?w) =
      \<lparr>total_files = 3, ok_files = 0, mismatch_files = 1, error_files = 2,
       tool_runs = [''a.FCStd'', ''c.FCStd'']\<rparr>"
    by (cases "snd (main exact ?cfg ?w)") simp
  from T have 3: "file_diffs exact ?cfg ?a = Inl ValueError"
    by (simp add: extract_volumes_def dict_get_def)
  from T have 4: "file_diffs exact ?cfg ?c = Inl TimeoutExpired"
    by simp
  from 1 2 3 4 show ?thesis
    by (simp add: prod_eq_iff)
qed

text \<open>
  C8. The code does not return the exit status of the claim when the match percentage is
  outside (0, 100]: in a run that reaches the loop over the files, every file with a
  baseline ends in an execution error and every other file is a mismatch, so that the
  status should be 3 or 2, but the summary line calls \<open>required_rel_tol\<close> outside any
  handler and \<^verbatim>\<open>main\<close> returns no status: a \<^verbatim>\<open>ValueError\<close> leaves it.
\<close>

theorem main_out_of_range_no_exit_status:
  assumes "\<not> (flt (Fin 0) (match_pct cfg) \<and> fle (match_pct cfg) (Fin 100))"
    and "freecad_exists w \<and> script_exists w \<and> fcstd_dir_exists w \<and> baseline_dir_exists w"
    and "fcstd_files w \<noteq> []"
  shows "fst (main R cfg w) = Inl ValueError
     \<and> (\<forall>s. fst (main R cfg w) \<noteq> Inr s)
     \<and> (\<forall>f \<in> set (fcstd_files w).
           (baseline_exists f \<longrightarrow> file_error R cfg f)
           \<and> (\<not> baseline_exists f \<longrightarrow> file_mismatch R cfg f))
     \<and> (0 < error_files (snd (main R cfg w)) \<or> 0 < mismatch_files (snd (main R cfg w)))"
proof -
  have m: "main R cfg w = (Inl ValueError, fold (process_file R cfg) (fcstd_files w) tally0)"
    using assms by (rule main_out_of_range)
  have e: "file_error R cfg = baseline_exists"
    using assms(1) by (rule out_of_range_file_error)
  have mm: "file_mismatch R cfg = (\<lambda>f. \<not> baseline_exists f)"
    using assms(1) by (rule out_of_range_file_mismatch)
  obtain f fs where fs: "fcstd_files w = f # fs"
    using assms(3) by (cases "fcstd_files w") auto
  have c: "0 < error_files (snd (main R cfg w)) \<or> 0 < mismatch_files (snd (main R cfg w))"
    unfolding m fold_process_file by (cases "baseline_exists f") (simp_all add: e mm fs tally0_def)
  show ?thesis
    using c unfolding m by (simp add: e mm)
qed

theorem main_out_of_range_no_exit_status_witness:
  "main exact \<lparr>match_pct = Fin 150, abs_tol_mm3 = Fin 0\<rparr>
     \<lparr>freecad_exists = True, script_exists = True, fcstd_dir_exists = True,
      baseline_dir_exists = True,
      fcstd_files =
        [\<lparr>file_name = ''model.FCStd'', baseline_exists = True,
          tool_result = Inr (JDict [(''objects'', JDict [(''Body'', JDict [(''solids'', JList
            [JDict [(''index'', JInt 0), (''metrics'', JDict [(''volume_mm3'', JInt 5)])]])])])]),
          baseline_load = Inr (JDict [(''objects'', JDict [(''Body'', JDict [(''solids'', JList
            [JDict [(''index'', JInt 0), (''metrics'', JDict [(''volume_mm3'', JInt 5)])]])])])])\<rparr>]\<rparr>
   = (Inl ValueError,
      \<lparr>total_files = 1, ok_files = 0, mismatch_files = 0, error_files = 1,
       tool_runs = [''model.FCStd'']\<rparr>)"
proof -
  let ?cfg = "\<lparr>match_pct = Fin 150, abs_tol_mm3 = Fin 0\<rparr>"
  let ?rep = "JDict [(''objects'', JDict [(''Body'', JDict [(''solids'', JList
            [JDict [(''index'', JInt 0), (''metrics'', JDict [(''volume_mm3'', JInt 5)])]])])])]"
  let ?w = "\<lparr>freecad_exists = True, script_exists = True, fcstd_dir_exists = True,
      baseline_dir_exists = True,
      fcstd_files =
        [\<lparr>file_name = ''model.FCStd'', baseline_exists = True,
          tool_result = Inr ?rep, baseline_load = Inr ?rep\<rparr>]\<rparr>"
  have h: "\<not> (flt (Fin 0) (match_pct ?cfg) \<and> fle (match_pct ?cfg) (Fin 100))"
      "freecad_exists ?w \<and> script_exists ?w \<and> fcstd_dir_exists ?w \<and> baseline_dir_exists ?w"
      "fcstd_files ?w \<noteq> []"
    by simp_all
  from main_out_of_range_no_exit_status [OF h, of exact]
  have 1: "fst (main exact ?cfg ?w) = Inl ValueError"
    by blast
  have 2: "snd (main exact ?cfg ?w) =
      \<lparr>total_files = 1, ok_files = 0, mismatch_files = 0, error_files = 1,
       tool_runs = [''model.FCStd'']\<rparr>"
    by (simp add: main_def process_file_def file_diffs_def extract_volumes_def dict_get_def
        solid_entry_def py_or_def exact_def compare_maps_def required_rel_tol_def tally0_def)
  from 1 2 show ?thesis
    by (simp add: prod_eq_iff)
qed

end
